theory Spec2Isabelle
  imports Complex_Main "HOL-Library.AList" "HOL-Library.Char_ord" "HOL-Library.List_Lexorder"
begin

section \<open>Data model\<close>

text \<open>
  Go's \<open>float64\<close>. The exporter only copies the decoded numbers from the JSON
  response into gauges (a JSON number decodes to a finite value); the one value it
  computes (the scrape duration) is supplied by the environment below, so no
  floating-point arithmetic is modelled.
\<close>

type_synonym float64 = real

text \<open>
  What \<open>encoding/json\<close> stores into an \<open>interface{}\<close>: nil, bool, float64,
  string, []interface{} or map[string]interface{}. A Go map is represented by its entries
  in the order a \<open>range\<close> loop visits them; its keys are distinct.
\<close>

datatype json =
    JNull
  | JBool bool
  | JNumber float64
  | JString string
  | JArray "json list"
  | JObject "(string \<times> json) list"

type_synonym jsonmap = "(string \<times> json) list"

text \<open>\<open>type scrapeResult struct\<close> (exporter.go, lines 24-29).\<close>

record scrapeResult =
  Name :: string
  Value :: float64
  Type :: string
  Status :: string

subsection \<open>The metrics client library, as far as the exporter uses it\<close>

text \<open>
  \<open>prometheus.GaugeOpts\<close> with the three fields the exporter fills in, and
  \<open>prometheus.BuildFQName\<close> with an empty subsystem.
\<close>

datatype gaugeOpts = GaugeOpts (opts_Namespace: string) (opts_Name: string) (opts_Help: string)

definition BuildFQName :: "string \<Rightarrow> string \<Rightarrow> string" where
  "BuildFQName ns name =
     (if name = [] then [] else if ns \<noteq> [] then ns @ ''_'' @ name else name)"

text \<open>
  A scalar gauge or counter: its fully-qualified name, its help text and its value.
  \<open>NewGauge\<close> and \<open>NewCounter\<close> start at 0.
\<close>

record scalar =
  scalar_fqName :: string
  scalar_help :: string
  scalar_value :: float64

definition NewGauge :: "gaugeOpts \<Rightarrow> scalar" where
  "NewGauge opts =
     \<lparr>scalar_fqName = BuildFQName (opts_Namespace opts) (opts_Name opts),
      scalar_help = opts_Help opts, scalar_value = 0\<rparr>"

definition NewCounter :: "gaugeOpts \<Rightarrow> scalar" where
  "NewCounter opts = NewGauge opts"

definition Inc :: "scalar \<Rightarrow> scalar" where
  "Inc c = c\<lparr>scalar_value := scalar_value c + 1\<rparr>"

definition Set_scalar :: "float64 \<Rightarrow> scalar \<Rightarrow> scalar" where
  "Set_scalar v g = g\<lparr>scalar_value := v\<rparr>"

text \<open>
  A \<open>GaugeVec\<close>: the family's name and help, its variable label names in declaration
  order, and one gauge per tuple of label values (in the order of the label names).
\<close>

record gaugeVec =
  fqName :: string
  helpText :: string
  variableLabels :: "string list"
  children :: "(string list \<times> float64) list"

definition NewGaugeVec :: "gaugeOpts \<Rightarrow> string list \<Rightarrow> gaugeVec" where
  "NewGaugeVec opts labelNames =
     \<lparr>fqName = BuildFQName (opts_Namespace opts) (opts_Name opts),
      helpText = opts_Help opts, variableLabels = labelNames, children = []\<rparr>"

text \<open>
  \<open>prometheus.Labels\<close> is a \<open>map[string]string\<close>. \<open>GaugeVec.With(labels)\<close>
  looks up (or creates) the child gauge for the label values; the library panics when
  the number of labels differs from the number of variable labels of the family, or when
  a variable label is missing from \<open>labels\<close>. Label values are taken to be valid
  UTF-8 text, which is what the JSON decoder and the string literals of the exporter
  produce. \<open>With_Set\<close> is \<open>v.With(labels).Set(x)\<close>; \<open>None\<close> is the panic.
\<close>

type_synonym Labels = "(string \<times> string) list"

definition labelValues :: "gaugeVec \<Rightarrow> Labels \<Rightarrow> string list option" where
  "labelValues v labels =
     (if length labels \<noteq> length (variableLabels v) then None
      else those (map (map_of labels) (variableLabels v)))"

definition With_Set :: "gaugeVec \<Rightarrow> Labels \<Rightarrow> float64 \<Rightarrow> gaugeVec option" where
  "With_Set v labels x =
     (case labelValues v labels of
        None \<Rightarrow> None
      | Some vals \<Rightarrow> Some (v\<lparr>children := AList.update vals x (children v)\<rparr>))"

text \<open>
  A \<open>prometheus.Metric\<close> as sent to the caller's channel: family name, label pairs
  (sorted by label name, as the library writes them; strings compare byte by byte),
  value. \<open>Collect_vec\<close> is \<open>GaugeVec.Collect\<close>, which sends every child of the family.
\<close>

datatype metric = Metric (metric_name: string) (metric_labels: "(string \<times> string) list")
  (metric_value: float64)

definition scalar_metric :: "scalar \<Rightarrow> metric" where
  "scalar_metric s = Metric (scalar_fqName s) [] (scalar_value s)"

definition Collect_vec :: "gaugeVec \<Rightarrow> metric list" where
  "Collect_vec v =
     map (\<lambda>(vals, x). Metric (fqName v) (sort_key fst (zip (variableLabels v) vals)) x)
       (children v)"

subsection \<open>The exporter\<close>

text \<open>
  \<open>type Exporter struct\<close> (lines 13-22), without the two locks. \<open>metrics\<close> is the Go
  map from metric name to gauge family, as the list of its entries in the order of their
  insertion. Go does not fix the order in which a \<open>range\<close> loop visits a map; where a
  function below ranges over a map, the list order stands for the order of that run.
\<close>

record exporter =
  Addr :: string
  namespace :: string
  duration :: scalar
  scrapeErrors :: scalar
  totalScrapes :: scalar
  metrics :: "(string \<times> gaugeVec) list"

text \<open>
  The world outside: what an HTTP GET of a URL followed by the JSON decoding gives
  (\<open>GetFailed\<close>: \<open>http.Get\<close> returned an error; \<open>Decoded result err\<close>: the decoder
  left \<open>result\<close> and returned \<open>err\<close>), and the seconds that pass between the two
  readings of the clock in \<open>scrape\<close>. Every request comes back, with a body or with an
  error: the exporter sets no timeout, and an upstream that never answers, which leaves
  the cycle waiting, is outside this model.
\<close>

datatype reply = GetFailed string | Decoded jsonmap "string option"

record env =
  upstream :: "string \<Rightarrow> reply"
  elapsed :: float64

text \<open>A function that panics carries the state it had reached.\<close>

datatype 'a outcome = Returned 'a | Panicked 'a

fun state_of :: "'a outcome \<Rightarrow> 'a" where
  "state_of (Returned s) = s"
| "state_of (Panicked s) = s"

section \<open>Operations\<close>

text \<open>\<open>initGauges\<close> (lines 48-106).\<close>

definition initGauges :: "exporter \<Rightarrow> exporter" where
  "initGauges ex =
    (let m0 = [];
         m1 = AList.update ''async''
                (NewGaugeVec (GaugeOpts (namespace ex) ''async'' ''async metric'')
                   [''status'']) m0;
         m2 = AList.update ''replication_time''
                (NewGaugeVec (GaugeOpts (namespace ex) ''replication_time''
                   ''replication_time metric'') [''type'']) m1;
         m3 = AList.update ''replication_last''
                (NewGaugeVec (GaugeOpts (namespace ex) ''replication_last''
                   ''replication_last metric'') [''type'']) m2;
         m4 = AList.update ''replication_stats''
                (NewGaugeVec (GaugeOpts (namespace ex) ''replication_stats''
                   ''replication_stats metric'') [''type'', ''status'']) m3;
         m5 = AList.update ''updater_sweep''
                (NewGaugeVec (GaugeOpts (namespace ex) ''updater_sweep''
                   ''updater_sweep metric'') [''type'']) m4;
         m6 = AList.update ''expirer_expiration_pass''
                (NewGaugeVec (GaugeOpts (namespace ex) ''expirer_expiration_pass''
                   ''expirer_expiration_pass metric'') [''type'']) m5;
         m7 = AList.update ''expirer_expired_last_pass''
                (NewGaugeVec (GaugeOpts (namespace ex) ''expired_last_pass''
                   ''expired_last_pass metric'') [''type'']) m6;
         m8 = AList.update ''quarantined''
                (NewGaugeVec (GaugeOpts (namespace ex) ''quarantined''
                   ''quarantined metric'') [''type'']) m7
     in ex\<lparr>metrics := m8,
            duration := NewGauge (GaugeOpts (namespace ex)
               ''exporter_last_scrape_duration_seconds'' ''The last scrape duration''),
            totalScrapes := NewCounter (GaugeOpts (namespace ex)
               ''exporter_scrapes_total'' ''Current total redis scrapes''),
            scrapeErrors := NewGauge (GaugeOpts (namespace ex)
               ''exporter_last_scrape_error'' ''The last scrape error status'')\<rparr>)"

text \<open>
  \<open>Ping\<close> (lines 44-46) and \<open>NewSwiftExporter\<close> (lines 31-42). The struct literal
  leaves the three scalars and the map nil; they are written here as an empty scalar and
  an empty map, and \<open>initGauges\<close> assigns all four before anything reads them.
\<close>

definition Ping :: "exporter \<Rightarrow> string option" where
  "Ping ex = None"

definition nil_scalar :: scalar where
  "nil_scalar = \<lparr>scalar_fqName = [], scalar_help = [], scalar_value = 0\<rparr>"

definition NewSwiftExporter :: "string \<Rightarrow> exporter \<times> string option" where
  "NewSwiftExporter addr =
     (let ex = \<lparr>Addr = addr, namespace = ''swift'', duration = nil_scalar,
                 scrapeErrors = nil_scalar, totalScrapes = nil_scalar, metrics = []\<rparr>
      in case Ping ex of
           Some err \<Rightarrow> (ex, Some err)
         | None \<Rightarrow> (initGauges ex, None))"

text \<open>
  \<open>request\<close> (lines 178-190): the decoded map and the error. After a failed GET the
  map is nil, which reads like the empty map.
\<close>

definition request :: "exporter \<Rightarrow> env \<Rightarrow> string \<Rightarrow> jsonmap \<times> string option" where
  "request ex e method =
     (let url = Addr ex @ ''/recon/'' @ method
      in case upstream e url of
           GetFailed err \<Rightarrow> ([], Some err)
         | Decoded result err \<Rightarrow> (result, err))"

text \<open>The type assertions \<open>x.(float64)\<close> and \<open>x.(map[string]interface{})\<close> on a map lookup.\<close>

fun as_float64 :: "json option \<Rightarrow> float64 option" where
  "as_float64 (Some (JNumber x)) = Some x"
| "as_float64 _ = None"

fun as_map :: "json option \<Rightarrow> jsonmap option" where
  "as_map (Some (JObject kvs)) = Some kvs"
| "as_map _ = None"

text \<open>
  Every sub-scrape returns the samples it sends on the channel, in order, and the
  errors it logs.
\<close>

type_synonym scraped = "scrapeResult list \<times> string list"

text \<open>\<open>scrapeAsync\<close> (lines 192-201).\<close>

definition scrapeAsync :: "exporter \<Rightarrow> env \<Rightarrow> scraped" where
  "scrapeAsync ex e =
     (case request ex e ''async'' of
        (res, Some err) \<Rightarrow> ([], [err])
      | (res, None) \<Rightarrow>
          ((case as_float64 (map_of res ''async_pending'') of
              Some pending \<Rightarrow>
                [\<lparr>Name = ''async'', Value = pending, Type = [], Status = ''pending''\<rparr>]
            | None \<Rightarrow> []), []))"

text \<open>
  \<open>scrapeReplication\<close> (lines 202-227). \<open>replication_stats_loop\<close> is the inner loop over
  the \<open>replication_stats\<close> map (lines 217-224), \<open>replication_body\<close> the loop body after
  a successful request (lines 210-225), \<open>replication_loop\<close> the loop over the types with its
  return at the first failed request.
\<close>

fun replication_stats_loop :: "string \<Rightarrow> (string \<times> json) list \<Rightarrow> scrapeResult list" where
  "replication_stats_loop t [] = []"
| "replication_stats_loop t ((status, value) # rest) =
     (if status = ''failure_nodes'' then replication_stats_loop t rest
      else case as_float64 (Some value) of
             Some v \<Rightarrow>
               \<lparr>Name = ''replication_stats'', Value = v, Type = t, Status = status\<rparr>
                 # replication_stats_loop t rest
           | None \<Rightarrow> replication_stats_loop t rest)"

definition replication_body :: "string \<Rightarrow> jsonmap \<Rightarrow> scrapeResult list" where
  "replication_body t res =
     (case as_float64 (map_of res ''replication_time'') of
        Some replication_time \<Rightarrow>
          [\<lparr>Name = ''replication_time'', Value = replication_time, Type = t, Status = []\<rparr>]
      | None \<Rightarrow> [])
     @ (case as_float64 (map_of res ''replication_last'') of
        Some replication_last \<Rightarrow>
          [\<lparr>Name = ''replication_last'', Value = replication_last, Type = t, Status = []\<rparr>]
      | None \<Rightarrow> [])
     @ (case as_map (map_of res ''replication_stats'') of
        Some replication_stats \<Rightarrow> replication_stats_loop t replication_stats
      | None \<Rightarrow> [])"

fun replication_loop :: "exporter \<Rightarrow> env \<Rightarrow> string list \<Rightarrow> scraped" where
  "replication_loop ex e [] = ([], [])"
| "replication_loop ex e (t # ts) =
     (case request ex e (''replication/'' @ t) of
        (res, Some err) \<Rightarrow> ([], [err])
      | (res, None) \<Rightarrow>
          (case replication_loop ex e ts of
             (out, logged) \<Rightarrow> (replication_body t res @ out, logged)))"

definition scrapeReplication :: "exporter \<Rightarrow> env \<Rightarrow> scraped" where
  "scrapeReplication ex e = replication_loop ex e [''container'', ''account'', ''object'']"

text \<open>\<open>scrapeUpdater\<close> (lines 228-240).\<close>

definition updater_body :: "string \<Rightarrow> jsonmap \<Rightarrow> scrapeResult list" where
  "updater_body t res =
     (case as_float64 (map_of res (t @ ''_updater_sweep'')) of
        Some sweep \<Rightarrow> [\<lparr>Name = ''updater_sweep'', Value = sweep, Type = t, Status = []\<rparr>]
      | None \<Rightarrow> [])"

fun updater_loop :: "exporter \<Rightarrow> env \<Rightarrow> string list \<Rightarrow> scraped" where
  "updater_loop ex e [] = ([], [])"
| "updater_loop ex e (t # ts) =
     (case request ex e (''updater/'' @ t) of
        (res, Some err) \<Rightarrow> ([], [err])
      | (res, None) \<Rightarrow>
          (case updater_loop ex e ts of
             (out, logged) \<Rightarrow> (updater_body t res @ out, logged)))"

definition scrapeUpdater :: "exporter \<Rightarrow> env \<Rightarrow> scraped" where
  "scrapeUpdater ex e = updater_loop ex e [''container'', ''object'']"

text \<open>\<open>scrapeExpirer\<close> (lines 241-256).\<close>

definition expirer_body :: "string \<Rightarrow> jsonmap \<Rightarrow> scrapeResult list" where
  "expirer_body t res =
     (case as_float64 (map_of res (t @ ''_expiration_pass'')) of
        Some expiration_pass \<Rightarrow>
          [\<lparr>Name = ''expirer_expiration_pass'', Value = expiration_pass, Type = t,
            Status = []\<rparr>]
      | None \<Rightarrow> [])
     @ (case as_float64 (map_of res ''expired_last_pass'') of
        Some expired_last_pass \<Rightarrow>
          [\<lparr>Name = ''expirer_expired_last_pass'', Value = expired_last_pass, Type = t,
            Status = []\<rparr>]
      | None \<Rightarrow> [])"

fun expirer_loop :: "exporter \<Rightarrow> env \<Rightarrow> string list \<Rightarrow> scraped" where
  "expirer_loop ex e [] = ([], [])"
| "expirer_loop ex e (t # ts) =
     (case request ex e (''expirer/'' @ t) of
        (res, Some err) \<Rightarrow> ([], [err])
      | (res, None) \<Rightarrow>
          (case expirer_loop ex e ts of
             (out, logged) \<Rightarrow> (expirer_body t res @ out, logged)))"

definition scrapeExpirer :: "exporter \<Rightarrow> env \<Rightarrow> scraped" where
  "scrapeExpirer ex e = expirer_loop ex e [''object'']"

text \<open>\<open>scrapeQuarantined\<close> (lines 257-269).\<close>

fun quarantined_loop :: "jsonmap \<Rightarrow> string list \<Rightarrow> scrapeResult list" where
  "quarantined_loop res [] = []"
| "quarantined_loop res (t # ts) =
     (case as_float64 (map_of res (t @ ''s'')) of
        Some v \<Rightarrow> \<lparr>Name = ''quarantined'', Value = v, Type = t, Status = []\<rparr>
                    # quarantined_loop res ts
      | None \<Rightarrow> quarantined_loop res ts)"

definition scrapeQuarantined :: "exporter \<Rightarrow> env \<Rightarrow> scraped" where
  "scrapeQuarantined ex e =
     (case request ex e ''quarantined'' of
        (res, Some err) \<Rightarrow> ([], [err])
      | (res, None) \<Rightarrow> (quarantined_loop res [''container'', ''account'', ''object''], []))"

text \<open>
  \<open>scrape\<close> (lines 134-147). \<open>scrape_subs\<close> is the sequence of the five sub-scrapes
  (lines 139-143); \<open>scrape\<close> gives the exporter after the counter's increment and the
  duration's assignment, the samples sent before the channel is closed, and the log.
\<close>

definition scrape_subs :: "exporter \<Rightarrow> env \<Rightarrow> scraped" where
  "scrape_subs ex e =
     (let (s1, l1) = scrapeAsync ex e;
          (s2, l2) = scrapeReplication ex e;
          (s3, l3) = scrapeUpdater ex e;
          (s4, l4) = scrapeExpirer ex e;
          (s5, l5) = scrapeQuarantined ex e
      in (s1 @ s2 @ s3 @ s4 @ s5, l1 @ l2 @ l3 @ l4 @ l5))"

definition scrape :: "exporter \<Rightarrow> env \<Rightarrow> exporter \<times> scraped" where
  "scrape ex e =
     (let exp1 = ex\<lparr>totalScrapes := Inc (totalScrapes ex)\<rparr>;
          sl = scrape_subs exp1 e;
          exp2 = exp1\<lparr>duration := Set_scalar (elapsed e) (duration exp1)\<rparr>
      in (exp2, sl))"

text \<open>
  \<open>setMetrics\<close> (lines 149-170). \<open>setMetrics_step\<close> is the loop body for one received
  sample: the registration of an unseen name (lines 152-160), the label map (lines
  161-167), and the assignment of the gauge (line 168), which panics in the library when
  the labels do not fit the family. \<open>setMetrics\<close> is the loop over the channel.
\<close>

definition register_name :: "string \<Rightarrow> string \<Rightarrow> (string \<times> gaugeVec) list
    \<Rightarrow> (string \<times> gaugeVec) list" where
  "register_name ns name ms =
     (case map_of ms name of
        Some v \<Rightarrow> ms
      | None \<Rightarrow> AList.update name
          (NewGaugeVec (GaugeOpts ns name (name @ '' metric'')) [''type'', ''status'']) ms)"

definition labels_of :: "scrapeResult \<Rightarrow> Labels" where
  "labels_of scr =
     (let labels0 = [];
          labels1 = (if length (Type scr) > 0 then AList.update ''type'' (Type scr) labels0
                     else labels0);
          labels2 = (if length (Status scr) > 0
                     then AList.update ''status'' (Status scr) labels1 else labels1)
      in labels2)"

definition setMetrics_step :: "string \<Rightarrow> (string \<times> gaugeVec) list \<Rightarrow> scrapeResult
    \<Rightarrow> (string \<times> gaugeVec) list outcome" where
  "setMetrics_step ns ms scr =
     (let name = Name scr;
          ms1 = register_name ns name ms
      in case map_of ms1 name of
           None \<Rightarrow> Panicked ms1
         | Some v \<Rightarrow>
             (case With_Set v (labels_of scr) (Value scr) of
                None \<Rightarrow> Panicked ms1
              | Some v' \<Rightarrow> Returned (AList.update name v' ms1)))"

fun setMetrics :: "string \<Rightarrow> (string \<times> gaugeVec) list \<Rightarrow> scrapeResult list
    \<Rightarrow> (string \<times> gaugeVec) list outcome" where
  "setMetrics ns ms [] = Returned ms"
| "setMetrics ns ms (scr # rest) =
     (case setMetrics_step ns ms scr of
        Returned ms' \<Rightarrow> setMetrics ns ms' rest
      | Panicked ms' \<Rightarrow> Panicked ms')"

text \<open>\<open>collectMetrics\<close> (lines 172-176).\<close>

definition collectMetrics :: "exporter \<Rightarrow> metric list" where
  "collectMetrics ex = concat (map (\<lambda>(name, m). Collect_vec m) (metrics ex))"

text \<open>
  \<open>Collect\<close> (lines 108-122): the exporter afterwards and the metrics sent to the
  caller's channel. The producer \<open>scrape\<close> closes the channel after it has set the
  duration, and \<open>setMetrics\<close> returns when the channel is closed, so on a normal return
  both have run to their end. When \<open>setMetrics\<close> panics, the producer is left at its
  send: the counter is incremented, the duration is not set, and nothing is sent to the
  caller.
\<close>

definition Collect :: "exporter \<Rightarrow> env \<Rightarrow> (exporter \<times> metric list) outcome" where
  "Collect exp0 e =
     (let exp1 = initGauges exp0;
          (exp2, scrapes, logged) = scrape exp1 e
      in case setMetrics (namespace exp1) (metrics exp1) scrapes of
           Panicked ms \<Rightarrow>
             Panicked (exp1\<lparr>totalScrapes := Inc (totalScrapes exp1), metrics := ms\<rparr>, [])
         | Returned ms \<Rightarrow>
             (let exp3 = exp2\<lparr>metrics := ms\<rparr>
              in Returned (exp3,
                   [scalar_metric (duration exp3), scalar_metric (totalScrapes exp3),
                    scalar_metric (scrapeErrors exp3)] @ collectMetrics exp3)))"

text \<open>
  A sequence of collection cycles, one environment per cycle: what each cycle sends to
  the caller. A panic ends the process.
\<close>

fun run_cycles :: "exporter \<Rightarrow> env list \<Rightarrow> metric list list" where
  "run_cycles ex [] = []"
| "run_cycles ex (e # es) =
     (case Collect ex e of
        Panicked s \<Rightarrow> []
      | Returned (ex', out) \<Rightarrow> out # run_cycles ex' es)"

section \<open>Example inputs\<close>

text \<open>
  An upstream given by a table from URL to reply; a URL outside the table refuses the
  connection.
\<close>

definition serve :: "(string \<times> reply) list \<Rightarrow> string \<Rightarrow> reply" where
  "serve table url =
     (case map_of table url of Some r \<Rightarrow> r | None \<Rightarrow> GetFailed ''connection refused'')"

definition swift_exporter :: exporter where
  "swift_exporter = fst (NewSwiftExporter ''http://127.0.0.1:6000'')"

text \<open>Nothing answers.\<close>

definition env_down :: env where
  "env_down = \<lparr>upstream = serve [], elapsed = 1 / 4\<rparr>"

text \<open>Only the expirer resource answers.\<close>

definition env_expirer :: env where
  "env_expirer =
     \<lparr>upstream = serve
        [(''http://127.0.0.1:6000/recon/expirer/object'',
          Decoded [(''object_expiration_pass'', JNumber 4),
                   (''expired_last_pass'', JNumber 7)] None)],
      elapsed = 1 / 4\<rparr>"

text \<open>
  The replication resource of the containers answers, the one of the accounts does not
  decode, and nothing else answers.
\<close>

definition env_partial :: env where
  "env_partial =
     \<lparr>upstream = serve
        [(''http://127.0.0.1:6000/recon/replication/container'',
          Decoded [(''replication_time'', JNumber (3 / 2))] None),
         (''http://127.0.0.1:6000/recon/replication/account'',
          Decoded [] (Some ''unexpected end of JSON input''))],
      elapsed = 1 / 4\<rparr>"

text \<open>Only the quarantined resource answers, with the object of the scenario.\<close>

definition quarantined_reply :: jsonmap where
  "quarantined_reply =
     [(''objects'', JNumber 5), (''accounts'', JNumber 0), (''containers'', JNumber 2)]"

definition env_quarantined :: env where
  "env_quarantined =
     \<lparr>upstream = serve
        [(''http://127.0.0.1:6000/recon/quarantined'', Decoded quarantined_reply None)],
      elapsed = 1 / 4\<rparr>"

text \<open>
  The three replication resources answer; the one of the objects carries a
  \<open>replication_stats\<close> map with a nested \<open>failure_nodes\<close>.
\<close>

definition replication_object_reply :: jsonmap where
  "replication_object_reply =
     [(''replication_time'', JNumber (3 / 2)),
      (''replication_stats'',
       JObject [(''success'', JNumber 10), (''failure'', JNumber 2),
                (''failure_nodes'', JObject [(''n1'', JNumber 1)])])]"

definition env_replication :: env where
  "env_replication =
     \<lparr>upstream = serve
        [(''http://127.0.0.1:6000/recon/replication/container'', Decoded [] None),
         (''http://127.0.0.1:6000/recon/replication/account'', Decoded [] None),
         (''http://127.0.0.1:6000/recon/replication/object'',
          Decoded replication_object_reply None)],
      elapsed = 1 / 4\<rparr>"


text \<open>Samples whose name is outside the fixed catalog.\<close>

definition sample_foo :: "float64 \<Rightarrow> scrapeResult" where
  "sample_foo x = \<lparr>Name = ''foo'', Value = x, Type = ''object'', Status = ''ok''\<rparr>"

definition sample_foo_account :: "float64 \<Rightarrow> scrapeResult" where
  "sample_foo_account x =
     \<lparr>Name = ''foo'', Value = x, Type = ''account'', Status = ''ok''\<rparr>"

section \<open>Notions for the statements about a whole cycle\<close>

text \<open>
  The entries of the registry without their gauges: key, exposed name, label names. A
  sample fits the registry when the registry holds its name and the library accepts its
  labels for that family.
\<close>

definition family_shapes :: "(string \<times> gaugeVec) list \<Rightarrow> (string \<times> string \<times> string list) list" where
  "family_shapes ms = map (\<lambda>(name, v). (name, fqName v, variableLabels v)) ms"

definition fits :: "(string \<times> gaugeVec) list \<Rightarrow> scrapeResult \<Rightarrow> bool" where
  "fits ms scr =
     (case map_of ms (Name scr) of
        None \<Rightarrow> False
      | Some v \<Rightarrow> labelValues v (labels_of scr) \<noteq> None)"

section \<open>Basic facts\<close>

lemma metrics_initGauges:
  "metrics (initGauges ex) =
     [(''async'', NewGaugeVec (GaugeOpts (namespace ex) ''async'' ''async metric'') [''status'']),
      (''replication_time'', NewGaugeVec (GaugeOpts (namespace ex) ''replication_time''
         ''replication_time metric'') [''type'']),
      (''replication_last'', NewGaugeVec (GaugeOpts (namespace ex) ''replication_last''
         ''replication_last metric'') [''type'']),
      (''replication_stats'', NewGaugeVec (GaugeOpts (namespace ex) ''replication_stats''
         ''replication_stats metric'') [''type'', ''status'']),
      (''updater_sweep'', NewGaugeVec (GaugeOpts (namespace ex) ''updater_sweep''
         ''updater_sweep metric'') [''type'']),
      (''expirer_expiration_pass'', NewGaugeVec (GaugeOpts (namespace ex)
         ''expirer_expiration_pass'' ''expirer_expiration_pass metric'') [''type'']),
      (''expirer_expired_last_pass'', NewGaugeVec (GaugeOpts (namespace ex)
         ''expired_last_pass'' ''expired_last_pass metric'') [''type'']),
      (''quarantined'', NewGaugeVec (GaugeOpts (namespace ex) ''quarantined''
         ''quarantined metric'') [''type''])]"
  by (simp add: initGauges_def)

lemma initGauges_fields:
  "Addr (initGauges ex) = Addr ex"
  "namespace (initGauges ex) = namespace ex"
  "duration (initGauges ex) = NewGauge (GaugeOpts (namespace ex)
      ''exporter_last_scrape_duration_seconds'' ''The last scrape duration'')"
  "totalScrapes (initGauges ex) = NewCounter (GaugeOpts (namespace ex)
      ''exporter_scrapes_total'' ''Current total redis scrapes'')"
  "scrapeErrors (initGauges ex) = NewGauge (GaugeOpts (namespace ex)
      ''exporter_last_scrape_error'' ''The last scrape error status'')"
  by (simp_all add: initGauges_def Let_def)

lemma swift_exporter_fields:
  "Addr swift_exporter = ''http://127.0.0.1:6000''"
  "namespace swift_exporter = ''swift''"
  by (simp_all add: swift_exporter_def NewSwiftExporter_def Ping_def initGauges_fields)

lemma replication_loop_Addr:
  "Addr ex' = Addr ex \<Longrightarrow> replication_loop ex' e ts = replication_loop ex e ts"
  by (induction ts) (simp_all add: request_def)

lemma updater_loop_Addr:
  "Addr ex' = Addr ex \<Longrightarrow> updater_loop ex' e ts = updater_loop ex e ts"
  by (induction ts) (simp_all add: request_def)

lemma expirer_loop_Addr:
  "Addr ex' = Addr ex \<Longrightarrow> expirer_loop ex' e ts = expirer_loop ex e ts"
  by (induction ts) (simp_all add: request_def)

lemma scrape_subs_Addr:
  assumes "Addr ex' = Addr ex"
  shows "scrape_subs ex' e = scrape_subs ex e"
  unfolding scrape_subs_def scrapeAsync_def scrapeReplication_def scrapeUpdater_def
    scrapeExpirer_def scrapeQuarantined_def request_def
    replication_loop_Addr [OF assms] updater_loop_Addr [OF assms]
    expirer_loop_Addr [OF assms] assms
  by (rule refl)

text \<open>
  One cycle, in terms of the samples of the sub-scrapes: the three scalars sent first
  are the fresh gauges of \<open>initGauges\<close> after the increment and the duration's assignment.
\<close>

lemma Collect_unfold:
  "Collect ex e =
     (case setMetrics (namespace ex) (metrics (initGauges ex)) (fst (scrape_subs ex e)) of
        Panicked ms \<Rightarrow>
          Panicked ((initGauges ex)\<lparr>totalScrapes := Inc (totalScrapes (initGauges ex)),
             metrics := ms\<rparr>, [])
      | Returned ms \<Rightarrow>
          Returned ((initGauges ex)\<lparr>totalScrapes := Inc (totalScrapes (initGauges ex)),
             duration := Set_scalar (elapsed e) (duration (initGauges ex)), metrics := ms\<rparr>,
             [Metric (BuildFQName (namespace ex) ''exporter_last_scrape_duration_seconds'') []
                (elapsed e),
              Metric (BuildFQName (namespace ex) ''exporter_scrapes_total'') [] 1,
              Metric (BuildFQName (namespace ex) ''exporter_last_scrape_error'') [] 0]
             @ concat (map (\<lambda>(name, m). Collect_vec m) ms)))"
proof -
  have "scrape_subs ((initGauges ex)\<lparr>totalScrapes := Inc (totalScrapes (initGauges ex))\<rparr>) e
      = scrape_subs ex e"
    by (rule scrape_subs_Addr) (simp add: initGauges_fields)
  then show ?thesis
    by (simp add: Collect_def scrape_def Let_def split_beta collectMetrics_def
        scalar_metric_def Set_scalar_def Inc_def NewGauge_def NewCounter_def initGauges_fields
        split: outcome.split)
qed

lemma Collect_Returned:
  assumes "Collect ex e = Returned (ex', out)"
  shows "namespace ex' = namespace ex"
    and "Addr ex' = Addr ex"
    and "take 3 out =
      [Metric (BuildFQName (namespace ex) ''exporter_last_scrape_duration_seconds'') []
         (elapsed e),
       Metric (BuildFQName (namespace ex) ''exporter_scrapes_total'') [] 1,
       Metric (BuildFQName (namespace ex) ''exporter_last_scrape_error'') [] 0]"
  using assms by (auto simp: Collect_unfold initGauges_fields split: outcome.splits)

lemmas sub_defs = scrape_subs_def scrapeAsync_def scrapeReplication_def scrapeUpdater_def
  scrapeExpirer_def scrapeQuarantined_def request_def replication_body_def updater_body_def
  expirer_body_def

lemmas fold_defs = setMetrics_step_def register_name_def labels_of_def With_Set_def
  labelValues_def metrics_initGauges NewGaugeVec_def BuildFQName_def Collect_vec_def Let_def

lemma Collect_down:
  "Collect swift_exporter env_down =
     Returned ((initGauges swift_exporter)\<lparr>totalScrapes := Inc (totalScrapes (initGauges swift_exporter)),
             duration := Set_scalar (1/4) (duration (initGauges swift_exporter))\<rparr>,
       [Metric ''swift_exporter_last_scrape_duration_seconds'' [] (1 / 4),
        Metric ''swift_exporter_scrapes_total'' [] 1,
        Metric ''swift_exporter_last_scrape_error'' [] 0])"
  by (simp add: Collect_unfold swift_exporter_fields env_down_def serve_def sub_defs fold_defs)


lemma Collect_expirer_out:
  "snd (state_of (Collect swift_exporter env_expirer)) =
       [Metric ''swift_exporter_last_scrape_duration_seconds'' [] (1 / 4),
        Metric ''swift_exporter_scrapes_total'' [] 1,
        Metric ''swift_exporter_last_scrape_error'' [] 0,
        Metric ''swift_expirer_expiration_pass'' [(''type'', ''object'')] 4,
        Metric ''swift_expired_last_pass'' [(''type'', ''object'')] 7]"
  by (simp add: Collect_unfold swift_exporter_fields env_expirer_def serve_def sub_defs fold_defs)

lemma Collect_preserves:
  "namespace (fst (state_of (Collect ex e))) = namespace ex"
  "Addr (fst (state_of (Collect ex e))) = Addr ex"
  by (simp_all add: Collect_unfold initGauges_fields split: outcome.split)

lemma run_cycles_health:
  "out \<in> set (run_cycles ex es) \<Longrightarrow>
     \<exists>secs. take 3 out =
      [Metric (BuildFQName (namespace ex) ''exporter_last_scrape_duration_seconds'') []
         secs,
       Metric (BuildFQName (namespace ex) ''exporter_scrapes_total'') [] 1,
       Metric (BuildFQName (namespace ex) ''exporter_last_scrape_error'') [] 0]"
proof (induction es arbitrary: ex)
  case Nil
  then show ?case by simp
next
  case (Cons e es)
  show ?case
  proof (cases "Collect ex e")
    case (Panicked s)
    with Cons.prems show ?thesis by simp
  next
    case (Returned r)
    obtain ex' out' where r: "r = (ex', out')" by (cases r)
    have c: "Collect ex e = Returned (ex', out')" using Returned r by simp
    from Cons.prems c have "out = out' \<or> out \<in> set (run_cycles ex' es)" by auto
    then show ?thesis
    proof
      assume "out = out'"
      with Collect_Returned(3) [OF c] show ?thesis by blast
    next
      assume "out \<in> set (run_cycles ex' es)"
      from Cons.IH [OF this] Collect_Returned(1) [OF c] show ?thesis by simp
    qed
  qed
qed

section \<open>The fixed catalog\<close>

text \<open>
  Claim C7. \<open>initGauges\<close> discards the prior registry and re-creates exactly the eight
  entries of the fixed catalog: whatever the exporter held before (also entries registered
  by earlier folds), the entry map afterwards has the keys async, replication_time,
  replication_last, replication_stats, updater_sweep, expirer_expiration_pass,
  expirer_expired_last_pass and quarantined and no other, every family is empty, and the
  result does not depend on the map held before.
\<close>

theorem initGauges_fixed_catalog:
  "map fst (metrics (initGauges ex)) =
     [''async'', ''replication_time'', ''replication_last'', ''replication_stats'',
      ''updater_sweep'', ''expirer_expiration_pass'', ''expirer_expired_last_pass'',
      ''quarantined'']
   \<and> dom (map_of (metrics (initGauges ex))) =
     {''async'', ''replication_time'', ''replication_last'', ''replication_stats'',
      ''updater_sweep'', ''expirer_expiration_pass'', ''expirer_expired_last_pass'',
      ''quarantined''}
   \<and> list_all (\<lambda>(name, v). children v = []) (metrics (initGauges ex))
   \<and> initGauges (ex\<lparr>metrics := ms\<rparr>) = initGauges ex"
proof -
  have keys: "map fst (metrics (initGauges ex)) =
     [''async'', ''replication_time'', ''replication_last'', ''replication_stats'',
      ''updater_sweep'', ''expirer_expiration_pass'', ''expirer_expired_last_pass'',
      ''quarantined'']"
    by (simp add: metrics_initGauges)
  have "dom (map_of (metrics (initGauges ex))) = set (map fst (metrics (initGauges ex)))"
    by (simp add: dom_map_of_conv_image_fst)
  then have doms: "dom (map_of (metrics (initGauges ex))) =
     {''async'', ''replication_time'', ''replication_last'', ''replication_stats'',
      ''updater_sweep'', ''expirer_expiration_pass'', ''expirer_expired_last_pass'',
      ''quarantined''}"
    unfolding keys by simp
  have fresh: "list_all (\<lambda>(name, v). children v = []) (metrics (initGauges ex))"
    by (simp add: metrics_initGauges NewGaugeVec_def)
  have forget: "initGauges (ex\<lparr>metrics := ms\<rparr>) = initGauges ex"
    by (simp add: initGauges_def)
  from keys doms fresh forget show ?thesis by blast
qed

text \<open>
  Claim C3. The catalog entry registered under the key expirer_expired_last_pass has the
  label set {type}, but the family it exposes is named by its options' name,
  expired_last_pass (with the namespace: swift_expired_last_pass), unlike its sibling
  expirer_expiration_pass, whose exposed name is its key. A cycle in which the expirer
  resource reports both fields sends swift_expirer_expiration_pass and
  swift_expired_last_pass to the caller.
\<close>

theorem expired_last_pass_family_name:
  "map_option fqName (map_of (metrics (initGauges ex)) ''expirer_expired_last_pass'')
     = Some (BuildFQName (namespace ex) ''expired_last_pass'')
   \<and> map_option variableLabels (map_of (metrics (initGauges ex)) ''expirer_expired_last_pass'')
     = Some [''type'']
   \<and> map_option fqName (map_of (metrics (initGauges ex)) ''expirer_expiration_pass'')
     = Some (BuildFQName (namespace ex) ''expirer_expiration_pass'')
   \<and> set (snd (state_of (Collect swift_exporter env_expirer))) =
       {Metric ''swift_exporter_last_scrape_duration_seconds'' [] (1 / 4),
        Metric ''swift_exporter_scrapes_total'' [] 1,
        Metric ''swift_exporter_last_scrape_error'' [] 0,
        Metric ''swift_expirer_expiration_pass'' [(''type'', ''object'')] 4,
        Metric ''swift_expired_last_pass'' [(''type'', ''object'')] 7}
   \<and> filter (\<lambda>m. metric_name m = ''swift_expirer_expired_last_pass'')
        (snd (state_of (Collect swift_exporter env_expirer))) = []"
  by (simp add: Collect_expirer_out) (simp add: metrics_initGauges NewGaugeVec_def)

section \<open>The pipeline-health scalars\<close>

text \<open>
  Claim C2. The total-scrape counter does not survive a collection cycle: every cycle
  starts with \<open>initGauges\<close>, which replaces the counter whatever it held by a fresh one, so
  after every cycle it holds 1, and three cycles in a row each send
  swift_exporter_scrapes_total = 1 to the caller.
\<close>

theorem scrapes_total_reset_every_cycle:
  "scalar_value (totalScrapes (fst (state_of (Collect ex e)))) = 1
   \<and> totalScrapes (initGauges (ex\<lparr>totalScrapes := c\<rparr>)) =
       NewCounter (GaugeOpts (namespace ex) ''exporter_scrapes_total''
         ''Current total redis scrapes'')
   \<and> map (\<lambda>out. out ! 1) (run_cycles swift_exporter [env_expirer, env_down, env_down]) =
       [Metric ''swift_exporter_scrapes_total'' [] 1,
        Metric ''swift_exporter_scrapes_total'' [] 1,
        Metric ''swift_exporter_scrapes_total'' [] 1]"
proof -
  have one: "scalar_value (totalScrapes (fst (state_of (Collect ex e)))) = 1"
    by (simp add: Collect_unfold initGauges_fields Inc_def NewCounter_def NewGauge_def
        split: outcome.split)
  have fresh: "totalScrapes (initGauges (ex\<lparr>totalScrapes := c\<rparr>)) =
       NewCounter (GaugeOpts (namespace ex) ''exporter_scrapes_total''
         ''Current total redis scrapes'')"
    by (simp add: initGauges_fields)
  have cycles: "map (\<lambda>out. out ! 1)
        (run_cycles swift_exporter [env_expirer, env_down, env_down]) =
       [Metric ''swift_exporter_scrapes_total'' [] 1,
        Metric ''swift_exporter_scrapes_total'' [] 1,
        Metric ''swift_exporter_scrapes_total'' [] 1]"
    by (simp add: Collect_unfold swift_exporter_fields initGauges_fields env_expirer_def
        env_down_def serve_def sub_defs fold_defs)
  from one fresh cycles show ?thesis by blast
qed

text \<open>
  Claim C10. The error-status scalar is never assigned after its creation: \<open>scrape\<close>
  leaves it as it is, after every cycle it is the fresh gauge of \<open>initGauges\<close>, and in
  every sequence of collection cycles, whatever the upstream does, every cycle sends
  exporter_last_scrape_error (third on the channel) with the value 0.
\<close>

theorem last_scrape_error_always_zero:
  "scrapeErrors (fst (scrape ex e)) = scrapeErrors ex
   \<and> scrapeErrors (fst (state_of (Collect ex e))) =
       NewGauge (GaugeOpts (namespace ex) ''exporter_last_scrape_error''
         ''The last scrape error status'')
   \<and> (\<forall>out \<in> set (run_cycles ex es).
        out ! 2 = Metric (BuildFQName (namespace ex) ''exporter_last_scrape_error'') [] 0)"
proof -
  have a: "scrapeErrors (fst (scrape ex e)) = scrapeErrors ex"
    by (simp add: scrape_def Let_def)
  have b: "scrapeErrors (fst (state_of (Collect ex e))) =
       NewGauge (GaugeOpts (namespace ex) ''exporter_last_scrape_error''
         ''The last scrape error status'')"
    by (simp add: Collect_unfold initGauges_fields split: outcome.split)
  have c: "out ! 2 = Metric (BuildFQName (namespace ex) ''exporter_last_scrape_error'') [] 0"
    if "out \<in> set (run_cycles ex es)" for out
  proof -
    from run_cycles_health [OF that] obtain secs where t: "take 3 out =
      [Metric (BuildFQName (namespace ex) ''exporter_last_scrape_duration_seconds'') [] secs,
       Metric (BuildFQName (namespace ex) ''exporter_scrapes_total'') [] 1,
       Metric (BuildFQName (namespace ex) ''exporter_last_scrape_error'') [] 0]"
      by blast
    have "out ! 2 = take 3 out ! 2" by simp
    also have "\<dots> = Metric (BuildFQName (namespace ex) ''exporter_last_scrape_error'') [] 0"
      unfolding t by simp
    finally show ?thesis .
  qed
  from a b c show ?thesis by blast
qed

theorem last_scrape_error_always_zero_witness:
  "length (run_cycles swift_exporter [env_expirer, env_down]) = 2
   \<and> map (\<lambda>out. out ! 2) (run_cycles swift_exporter [env_expirer, env_down]) =
      [Metric ''swift_exporter_last_scrape_error'' [] 0,
       Metric ''swift_exporter_last_scrape_error'' [] 0]"
proof -
  have len: "length (run_cycles swift_exporter [env_expirer, env_down]) = 2"
    by (simp add: Collect_unfold swift_exporter_fields initGauges_fields env_expirer_def
        env_down_def serve_def sub_defs fold_defs)
  have "\<forall>out \<in> set (run_cycles swift_exporter [env_expirer, env_down]).
        out ! 2 = Metric (BuildFQName (namespace swift_exporter) ''exporter_last_scrape_error'') [] 0"
    using last_scrape_error_always_zero [of swift_exporter env_down "[env_expirer, env_down]"]
    by blast
  then have "map (\<lambda>out. out ! 2) (run_cycles swift_exporter [env_expirer, env_down]) =
      map (\<lambda>out. Metric ''swift_exporter_last_scrape_error'' [] 0)
        (run_cycles swift_exporter [env_expirer, env_down])"
    by (simp add: swift_exporter_fields BuildFQName_def)
  also have "\<dots> = replicate 2 (Metric ''swift_exporter_last_scrape_error'' [] 0)"
    using len by (simp add: map_replicate_const)
  finally show ?thesis using len by (simp add: numeral_2_eq_2)
qed

section \<open>Sub-scrapes\<close>

lemma replication_loop_split:
  assumes "\<forall>t' \<in> set ts1. snd (request ex e (''replication/'' @ t')) = None"
  shows "replication_loop ex e (ts1 @ ts) =
     (concat (map (\<lambda>t'. replication_body t' (fst (request ex e (''replication/'' @ t')))) ts1)
        @ fst (replication_loop ex e ts),
      snd (replication_loop ex e ts))"
  using assms by (induction ts1) (auto split: prod.splits option.splits)

lemma updater_loop_split:
  assumes "\<forall>t' \<in> set ts1. snd (request ex e (''updater/'' @ t')) = None"
  shows "updater_loop ex e (ts1 @ ts) =
     (concat (map (\<lambda>t'. updater_body t' (fst (request ex e (''updater/'' @ t')))) ts1)
        @ fst (updater_loop ex e ts),
      snd (updater_loop ex e ts))"
  using assms by (induction ts1) (auto split: prod.splits option.splits)

lemma replication_loop_failed:
  "snd (request ex e (''replication/'' @ t)) = Some err \<Longrightarrow>
     replication_loop ex e (t # ts2) = ([], [err])"
  by (auto split: prod.splits option.splits)

lemma updater_loop_failed:
  "snd (request ex e (''updater/'' @ t)) = Some err \<Longrightarrow>
     updater_loop ex e (t # ts2) = ([], [err])"
  by (auto split: prod.splits option.splits)

lemma all_failed_no_samples:
  assumes "\<forall>m. snd (request ex e m) \<noteq> None"
  shows "fst (scrape_subs ex e) = []"
proof -
  have r: "\<exists>res err. request ex e m = (res, Some err)" for m
    using assms [rule_format, of m] by (cases "request ex e m") auto
  have a: "fst (scrapeAsync ex e) = []"
    using r [of "''async''"] by (auto simp: scrapeAsync_def)
  have q: "fst (scrapeQuarantined ex e) = []"
    using r [of "''quarantined''"] by (auto simp: scrapeQuarantined_def)
  have x: "fst (scrapeExpirer ex e) = []"
    using r [of "''expirer/object''"] by (auto simp: scrapeExpirer_def)
  have p: "fst (scrapeReplication ex e) = []"
    using r [of "''replication/container''"] by (auto simp: scrapeReplication_def)
  have u: "fst (scrapeUpdater ex e) = []"
    using r [of "''updater/container''"] by (auto simp: scrapeUpdater_def)
  from a q x p u show ?thesis
    by (simp add: scrape_subs_def split_beta)
qed

lemma Collect_no_samples:
  assumes "fst (scrape_subs ex e) = []"
  shows "\<exists>ex'. Collect ex e = Returned (ex',
     [Metric (BuildFQName (namespace ex) ''exporter_last_scrape_duration_seconds'') []
        (elapsed e),
      Metric (BuildFQName (namespace ex) ''exporter_scrapes_total'') [] 1,
      Metric (BuildFQName (namespace ex) ''exporter_last_scrape_error'') [] 0])"
  by (simp add: Collect_unfold assms metrics_initGauges Collect_vec_def NewGaugeVec_def)

section \<open>Replication statistics\<close>

lemma replication_stats_loop_sample:
  "s \<in> set (replication_stats_loop t kvs) \<Longrightarrow>
     Name s = ''replication_stats'' \<and> Type s = t \<and> Status s \<in> fst ` set kvs
     \<and> Status s \<noteq> ''failure_nodes''"
  by (induction t kvs rule: replication_stats_loop.induct)
     (auto split: if_splits option.splits)

lemma replication_stats_loop_other_key:
  "k \<notin> fst ` set kvs \<Longrightarrow> filter (\<lambda>s. Status s = k) (replication_stats_loop t kvs) = []"
  by (auto simp: filter_empty_conv dest: replication_stats_loop_sample)

lemma replication_stats_loop_key:
  "distinct (map fst kvs) \<Longrightarrow>
     filter (\<lambda>s. Status s = k) (replication_stats_loop t kvs) =
       (case as_float64 (map_of kvs k) of
          Some x \<Rightarrow>
            if k = ''failure_nodes'' then []
            else [\<lparr>Name = ''replication_stats'', Value = x, Type = t, Status = k\<rparr>]
        | None \<Rightarrow> [])"
proof (induction t kvs rule: replication_stats_loop.induct)
  case (1 t)
  then show ?case by simp
next
  case (2 t status "value" rest)
  show ?case
  proof (cases "status = k")
    case True
    with "2.prems" have "k \<notin> fst ` set rest" by auto
    then have "filter (\<lambda>s. Status s = k) (replication_stats_loop t rest) = []"
      by (rule replication_stats_loop_other_key)
    with True show ?thesis by (auto split: option.splits)
  next
    case False
    with 2 show ?thesis by (auto split: option.splits)
  qed
qed

lemma replication_body_sample:
  "s \<in> set (replication_body t res) \<Longrightarrow>
     Type s = t \<and> Status s \<noteq> ''failure_nodes''
     \<and> (Name s = ''replication_time'' \<and> Status s = []
        \<or> Name s = ''replication_last'' \<and> Status s = []
        \<or> Name s = ''replication_stats'')"
  by (auto simp: replication_body_def split: option.splits
      dest: replication_stats_loop_sample)

lemma replication_loop_sample:
  "s \<in> set (fst (replication_loop ex e ts)) \<Longrightarrow>
     Type s \<in> set ts \<and> Status s \<noteq> ''failure_nodes''
     \<and> (Name s = ''replication_time'' \<and> Status s = []
        \<or> Name s = ''replication_last'' \<and> Status s = []
        \<or> Name s = ''replication_stats'')"
proof (induction ts)
  case Nil
  then show ?case by simp
next
  case (Cons t ts)
  then show ?case
    by (auto split: prod.splits option.splits dest!: replication_body_sample)
qed

lemma replication_body_key:
  assumes "as_map (map_of res ''replication_stats'') = Some kvs" "distinct (map fst kvs)"
  shows "filter (\<lambda>s. Name s = ''replication_stats'' \<and> Type s = t \<and> Status s = k)
       (replication_body t res) =
     (case as_float64 (map_of kvs k) of
          Some x \<Rightarrow>
            if k = ''failure_nodes'' then []
            else [\<lparr>Name = ''replication_stats'', Value = x, Type = t, Status = k\<rparr>]
        | None \<Rightarrow> [])"
proof -
  have "filter (\<lambda>s. Name s = ''replication_stats'' \<and> Type s = t \<and> Status s = k)
       (replication_stats_loop t kvs) = filter (\<lambda>s. Status s = k) (replication_stats_loop t kvs)"
    by (rule filter_cong) (auto dest: replication_stats_loop_sample)
  then show ?thesis
    using assms by (simp add: replication_body_def replication_stats_loop_key split: option.splits)
qed


text \<open>
  Claim C4. When the replication sub-scrape reaches the request for a subsystem and the
  response carries a \<open>replication_stats\<close> map, then for every key of that map the
  sub-scrape sends exactly one sample named replication_stats with that subsystem as type
  and that key as status when the key's value is a number and the key is not
  \<open>failure_nodes\<close>, and none otherwise. Whatever the upstream returns, no sample of
  the replication sub-scrape has the status \<open>failure_nodes\<close>.
\<close>

theorem replication_stats_one_sample_per_numeric_key:
  "([''container'', ''account'', ''object''] = ts1 @ t # ts2
    \<and> (\<forall>t' \<in> set (ts1 @ [t]). snd (request ex e (''replication/'' @ t')) = None)
    \<and> as_map (map_of (fst (request ex e (''replication/'' @ t))) ''replication_stats'')
        = Some kvs
    \<and> distinct (map fst kvs) \<longrightarrow>
    filter (\<lambda>s. Name s = ''replication_stats'' \<and> Type s = t \<and> Status s = k)
        (fst (scrapeReplication ex e)) =
      (case as_float64 (map_of kvs k) of
         Some x \<Rightarrow>
           if k = ''failure_nodes'' then []
           else [\<lparr>Name = ''replication_stats'', Value = x, Type = t, Status = k\<rparr>]
       | None \<Rightarrow> []))
   \<and> (\<forall>s \<in> set (fst (scrapeReplication ex e)). Status s \<noteq> ''failure_nodes'')"
proof (intro conjI impI ballI)
  fix s
  assume "s \<in> set (fst (scrapeReplication ex e))"
  then show "Status s \<noteq> ''failure_nodes''"
    unfolding scrapeReplication_def by (blast dest: replication_loop_sample)
next
  let ?P = "\<lambda>s. Name s = ''replication_stats'' \<and> Type s = t \<and> Status s = k"
  let ?body = "\<lambda>t'. replication_body t' (fst (request ex e (''replication/'' @ t')))"
  assume h: "[''container'', ''account'', ''object''] = ts1 @ t # ts2
    \<and> (\<forall>t' \<in> set (ts1 @ [t]). snd (request ex e (''replication/'' @ t')) = None)
    \<and> as_map (map_of (fst (request ex e (''replication/'' @ t))) ''replication_stats'')
        = Some kvs
    \<and> distinct (map fst kvs)"
  then have types: "[''container'', ''account'', ''object''] = ts1 @ t # ts2"
    and ok: "\<forall>t' \<in> set (ts1 @ [t]). snd (request ex e (''replication/'' @ t')) = None"
    and stats: "as_map (map_of (fst (request ex e (''replication/'' @ t)))
        ''replication_stats'') = Some kvs"
    and keys: "distinct (map fst kvs)"
    by blast+
  have "distinct [''container'', ''account'', ''object'']" by simp
  then have "distinct (ts1 @ t # ts2)" unfolding types .
  then have fresh: "t \<notin> set ts1" "t \<notin> set ts2" by auto
  have before: "filter ?P (concat (map ?body ts1)) = []"
    using fresh(1) by (auto simp: filter_empty_conv dest!: replication_body_sample)
  have after: "filter ?P (fst (replication_loop ex e ts2)) = []"
    using fresh(2) by (auto simp: filter_empty_conv dest!: replication_loop_sample)
  have "fst (scrapeReplication ex e) =
      concat (map ?body ts1) @ ?body t @ fst (replication_loop ex e ts2)"
    unfolding scrapeReplication_def types
    using replication_loop_split [OF ok, of ts2] by simp
  then have "filter ?P (fst (scrapeReplication ex e)) = filter ?P (?body t)"
    using before after by simp
  also have "\<dots> = (case as_float64 (map_of kvs k) of
         Some x \<Rightarrow>
           if k = ''failure_nodes'' then []
           else [\<lparr>Name = ''replication_stats'', Value = x, Type = t, Status = k\<rparr>]
       | None \<Rightarrow> [])"
    by (rule replication_body_key [OF stats keys])
  finally show "filter ?P (fst (scrapeReplication ex e)) =
      (case as_float64 (map_of kvs k) of
         Some x \<Rightarrow>
           if k = ''failure_nodes'' then []
           else [\<lparr>Name = ''replication_stats'', Value = x, Type = t, Status = k\<rparr>]
       | None \<Rightarrow> [])" .
qed

lemma request_replication:
  "request swift_exporter env_replication ''replication/container'' = ([], None)"
  "request swift_exporter env_replication ''replication/account'' = ([], None)"
  "request swift_exporter env_replication ''replication/object'' =
     (replication_object_reply, None)"
  by (simp_all add: request_def swift_exporter_fields env_replication_def serve_def)

lemma scrapeReplication_example:
  "fst (scrapeReplication swift_exporter env_replication) =
     [\<lparr>Name = ''replication_time'', Value = 3 / 2, Type = ''object'', Status = []\<rparr>,
      \<lparr>Name = ''replication_stats'', Value = 10, Type = ''object'', Status = ''success''\<rparr>,
      \<lparr>Name = ''replication_stats'', Value = 2, Type = ''object'', Status = ''failure''\<rparr>]"
  by (simp add: scrapeReplication_def request_replication replication_body_def
      replication_object_reply_def)

theorem replication_stats_one_sample_per_numeric_key_witness:
  "filter (\<lambda>s. Name s = ''replication_stats'' \<and> Type s = ''object'' \<and> Status s = ''failure'')
      (fst (scrapeReplication swift_exporter env_replication)) =
     [\<lparr>Name = ''replication_stats'', Value = 2, Type = ''object'', Status = ''failure''\<rparr>]
   \<and> filter (\<lambda>s. Name s = ''replication_stats'' \<and> Type s = ''object''
         \<and> Status s = ''failure_nodes'')
      (fst (scrapeReplication swift_exporter env_replication)) = []
   \<and> length (fst (scrapeReplication swift_exporter env_replication)) = 3
   \<and> list_all (\<lambda>s. Status s \<noteq> ''failure_nodes'')
       (fst (scrapeReplication swift_exporter env_replication))"
proof -
  let ?kvs = "[(''success'', JNumber 10), (''failure'', JNumber 2),
                (''failure_nodes'', JObject [(''n1'', JNumber 1)])]"
  note a = replication_stats_one_sample_per_numeric_key [where ex = swift_exporter
      and e = env_replication and ?ts1.0 = "[''container'', ''account'']"
      and t = "''object''" and ?ts2.0 = "[]" and kvs = ?kvs and k = "''failure''"]
  note b = replication_stats_one_sample_per_numeric_key [where ex = swift_exporter
      and e = env_replication and ?ts1.0 = "[''container'', ''account'']"
      and t = "''object''" and ?ts2.0 = "[]" and kvs = ?kvs and k = "''failure_nodes''"]
  have pre: "as_map (map_of (fst (request swift_exporter env_replication
       (''replication/'' @ ''object''))) ''replication_stats'') = Some ?kvs"
    "\<forall>t' \<in> set ([''container'', ''account''] @ [''object'']).
        snd (request swift_exporter env_replication (''replication/'' @ t')) = None"
    "distinct (map fst ?kvs)"
    by (simp_all add: request_replication replication_object_reply_def)
  have 1: "filter (\<lambda>s. Name s = ''replication_stats'' \<and> Type s = ''object''
        \<and> Status s = ''failure'')
      (fst (scrapeReplication swift_exporter env_replication)) =
     [\<lparr>Name = ''replication_stats'', Value = 2, Type = ''object'', Status = ''failure''\<rparr>]"
    using a pre by simp
  have 2: "filter (\<lambda>s. Name s = ''replication_stats'' \<and> Type s = ''object''
         \<and> Status s = ''failure_nodes'')
      (fst (scrapeReplication swift_exporter env_replication)) = []"
    using b pre by simp
  have 3: "length (fst (scrapeReplication swift_exporter env_replication)) = 3"
    by (simp add: scrapeReplication_example)
  have 4: "list_all (\<lambda>s. Status s \<noteq> ''failure_nodes'')
       (fst (scrapeReplication swift_exporter env_replication))"
    using a by (simp add: list_all_iff)
  from 1 2 3 4 show ?thesis by blast
qed

section \<open>Folding samples into the registry\<close>

lemma update_absent: "k \<notin> fst ` set al \<Longrightarrow> AList.update k v al = al @ [(k, v)]"
  by (induction al) auto

lemma update_appended:
  "k \<notin> fst ` set al \<Longrightarrow> AList.update k v (al @ [(k, w)]) = al @ [(k, v)]"
  by (induction al) auto

lemma With_Set_Some:
  "With_Set v labels x = Some v' \<Longrightarrow>
     \<exists>vals. labelValues v labels = Some vals
       \<and> v' = v\<lparr>children := AList.update vals x (children v)\<rparr>"
  by (auto simp: With_Set_def split: option.splits)

lemma labelValues_cong:
  "variableLabels v' = variableLabels v \<Longrightarrow> labelValues v' labels = labelValues v labels"
  by (simp add: labelValues_def)

text \<open>The step on a name the registry holds, and on one it does not hold.\<close>

lemma register_name_seen:
  assumes "map_of ms name = Some v"
  shows "register_name ns name ms = ms"
  unfolding register_name_def assms by simp

lemma register_name_unseen:
  assumes "map_of ms name = None"
  shows "register_name ns name ms =
       ms @ [(name, NewGaugeVec (GaugeOpts ns name (name @ '' metric''))
                      [''type'', ''status''])]"
proof -
  from assms have absent: "name \<notin> fst ` set ms"
    by (simp add: map_of_eq_None_iff)
  show ?thesis
    unfolding register_name_def assms by (simp add: update_absent [OF absent])
qed

lemma map_of_appended:
  assumes "map_of ms name = None"
  shows "map_of (ms @ [(name, v)]) name = Some v"
  unfolding map_of_append map_add_def assms by simp

lemma setMetrics_step_seen:
  assumes "map_of ms (Name scr) = Some v"
  shows "setMetrics_step ns ms scr =
     (case With_Set v (labels_of scr) (Value scr) of
        None \<Rightarrow> Panicked ms
      | Some v' \<Rightarrow> Returned (AList.update (Name scr) v' ms))"
  unfolding setMetrics_step_def Let_def register_name_seen [OF assms] assms by simp

lemma setMetrics_step_unseen:
  assumes "map_of ms (Name scr) = None"
  shows "setMetrics_step ns ms scr =
     (case With_Set (NewGaugeVec (GaugeOpts ns (Name scr) (Name scr @ '' metric''))
                [''type'', ''status'']) (labels_of scr) (Value scr) of
           None \<Rightarrow> Panicked (ms @ [(Name scr,
             NewGaugeVec (GaugeOpts ns (Name scr) (Name scr @ '' metric''))
                [''type'', ''status''])])
         | Some v' \<Rightarrow> Returned (ms @ [(Name scr, v')]))"
proof -
  from assms have absent: "Name scr \<notin> fst ` set ms"
    by (simp add: map_of_eq_None_iff)
  show ?thesis
    unfolding setMetrics_step_def Let_def register_name_unseen [OF assms]
      map_of_appended [OF assms] update_appended [OF absent]
    by simp
qed

lemma labelValues_type_status:
  assumes "variableLabels v = [''type'', ''status'']"
  shows "labelValues v (labels_of scr) =
     (if Type scr \<noteq> [] \<and> Status scr \<noteq> [] then Some [Type scr, Status scr] else None)"
  by (simp add: labelValues_def labels_of_def assms)

text \<open>
  Claim C5. Folding a sample whose name the registry does not hold creates exactly one
  entry: after \<open>setMetrics\<close> on that sample the entry map is the map before with one
  entry appended under the sample's name, a family named after the sample with the label
  names type and status, holding the sample's value when the sample carries both labels.
  Folding a second sample of the same name after it creates no second entry: the map still
  ends with the one entry under that name, and that entry is the family of the first
  fold with the second sample's gauge set in it, not a new family. This holds of the
  registry the fold leaves also when the library rejects a sample's labels.
\<close>

theorem unseen_name_registered_once:
  assumes "map_of ms (Name scr) = None" and "Name scr2 = Name scr"
  shows "\<exists>v1 v2.
       state_of (setMetrics ns ms [scr]) = ms @ [(Name scr, v1)]
     \<and> state_of (setMetrics ns ms [scr, scr2]) = ms @ [(Name scr, v2)]
     \<and> fqName v1 = BuildFQName ns (Name scr)
     \<and> helpText v1 = Name scr @ '' metric''
     \<and> variableLabels v1 = [''type'', ''status'']
     \<and> children v1 =
         (if Type scr \<noteq> [] \<and> Status scr \<noteq> [] then [([Type scr, Status scr], Value scr)]
          else [])
     \<and> v2 =
         (if Type scr \<noteq> [] \<and> Status scr \<noteq> [] \<and> Type scr2 \<noteq> [] \<and> Status scr2 \<noteq> []
          then v1\<lparr>children :=
                 AList.update [Type scr2, Status scr2] (Value scr2) (children v1)\<rparr>
          else v1)"
proof -
  let ?new = "NewGaugeVec (GaugeOpts ns (Name scr) (Name scr @ '' metric''))
                [''type'', ''status'']"
  from assms(1) have absent: "Name scr \<notin> fst ` set ms"
    by (simp add: map_of_eq_None_iff)
  have new: "fqName ?new = BuildFQName ns (Name scr)"
    "helpText ?new = Name scr @ '' metric''"
    "variableLabels ?new = [''type'', ''status'']" "children ?new = []"
    by (simp_all add: NewGaugeVec_def)
  note first = setMetrics_step_unseen [OF assms(1), of ns]
  show ?thesis
  proof (cases "Type scr \<noteq> [] \<and> Status scr \<noteq> []")
    case False
    then have "labelValues ?new (labels_of scr) = None"
      unfolding labelValues_type_status [OF new(3)] by simp
    then have step: "setMetrics_step ns ms scr = Panicked (ms @ [(Name scr, ?new)])"
      unfolding first With_Set_def by simp
    show ?thesis
      by (intro exI [of _ ?new]) (use False new in \<open>auto simp: step\<close>)
  next
    case True
    let ?v1 = "?new\<lparr>children := [([Type scr, Status scr], Value scr)]\<rparr>"
    from True have "labelValues ?new (labels_of scr) = Some [Type scr, Status scr]"
      unfolding labelValues_type_status [OF new(3)] by simp
    then have step: "setMetrics_step ns ms scr = Returned (ms @ [(Name scr, ?v1)])"
      unfolding first With_Set_def by (simp add: new)
    have v1: "fqName ?v1 = BuildFQName ns (Name scr)"
      "helpText ?v1 = Name scr @ '' metric''"
      "variableLabels ?v1 = [''type'', ''status'']"
      "children ?v1 = [([Type scr, Status scr], Value scr)]"
      by (simp_all add: new)
    have look: "map_of (ms @ [(Name scr, ?v1)]) (Name scr2) = Some ?v1"
      unfolding assms(2) by (rule map_of_appended [OF assms(1)])
    note second = setMetrics_step_seen [OF look, of ns]
    show ?thesis
    proof (cases "Type scr2 \<noteq> [] \<and> Status scr2 \<noteq> []")
      case False
      then have "labelValues ?v1 (labels_of scr2) = None"
        unfolding labelValues_type_status [OF v1(3)] by simp
      then have step2: "setMetrics_step ns (ms @ [(Name scr, ?v1)]) scr2
          = Panicked (ms @ [(Name scr, ?v1)])"
        unfolding second With_Set_def by simp
      show ?thesis
        by (intro exI [of _ ?v1]) (use True False v1 in \<open>auto simp: step step2\<close>)
    next
      case both: True
      let ?v2 = "?v1\<lparr>children :=
          AList.update [Type scr2, Status scr2] (Value scr2) (children ?v1)\<rparr>"
      from both have "labelValues ?v1 (labels_of scr2) = Some [Type scr2, Status scr2]"
        unfolding labelValues_type_status [OF v1(3)] by simp
      then have step2: "setMetrics_step ns (ms @ [(Name scr, ?v1)]) scr2
          = Returned (ms @ [(Name scr, ?v2)])"
        unfolding second With_Set_def assms(2)
        by (simp add: update_appended [OF absent])
      show ?thesis
        by (intro exI [of _ ?v1] exI [of _ ?v2])
           (use True both v1 in \<open>auto simp: step step2\<close>)
    qed
  qed
qed

theorem unseen_name_registered_once_witness:
  "map_of (metrics swift_exporter) (Name (sample_foo 1)) = None
   \<and> state_of (setMetrics ''swift'' (metrics swift_exporter) [sample_foo 1]) =
       metrics swift_exporter @
         [(''foo'', \<lparr>fqName = ''swift_foo'', helpText = ''foo metric'',
             variableLabels = [''type'', ''status''],
             children = [([''object'', ''ok''], 1)]\<rparr>)]
   \<and> state_of (setMetrics ''swift'' (metrics swift_exporter)
         [sample_foo 1, sample_foo_account 2]) =
       metrics swift_exporter @
         [(''foo'', \<lparr>fqName = ''swift_foo'', helpText = ''foo metric'',
             variableLabels = [''type'', ''status''],
             children = [([''object'', ''ok''], 1), ([''account'', ''ok''], 2)]\<rparr>)]"
proof -
  have unseen: "map_of (metrics swift_exporter) (Name (sample_foo 1)) = None"
    by (simp add: swift_exporter_def NewSwiftExporter_def Ping_def metrics_initGauges
        sample_foo_def)
  have same: "Name (sample_foo_account 2) = Name (sample_foo 1)"
    by (simp add: sample_foo_def sample_foo_account_def)
  from unseen_name_registered_once [OF unseen same, of "''swift''"]
  obtain v1 v2 where
    s1: "state_of (setMetrics ''swift'' (metrics swift_exporter) [sample_foo 1])
          = metrics swift_exporter @ [(''foo'', v1)]"
    and s2: "state_of (setMetrics ''swift'' (metrics swift_exporter)
          [sample_foo 1, sample_foo_account 2]) = metrics swift_exporter @ [(''foo'', v2)]"
    and v1: "fqName v1 = ''swift_foo''" "helpText v1 = ''foo metric''"
      "variableLabels v1 = [''type'', ''status'']"
      "children v1 = [([''object'', ''ok''], 1)]"
    and v2: "v2 = v1\<lparr>children := [([''object'', ''ok''], 1), ([''account'', ''ok''], 2)]\<rparr>"
    by (auto simp: sample_foo_def sample_foo_account_def BuildFQName_def)
  from v1 have e1: "v1 = \<lparr>fqName = ''swift_foo'', helpText = ''foo metric'',
             variableLabels = [''type'', ''status''],
             children = [([''object'', ''ok''], 1)]\<rparr>"
    by (cases v1) simp
  from unseen s1 s2 show ?thesis
    unfolding v2 e1 by simp
qed

text \<open>
  Claim C6. The fold sets, it does not accumulate: for two samples with the same name,
  type and status, folding the first and then the second gives what folding the second
  alone gives, and when the fold returns, the gauge at the samples' label values holds
  the value of the later sample.
\<close>

theorem later_sample_overwrites:
  assumes "Name s2 = Name s1" and "Type s2 = Type s1" and "Status s2 = Status s1"
  shows "setMetrics ns ms [s1, s2] = setMetrics ns ms [s2]
     \<and> (\<forall>ms'. setMetrics ns ms [s1, s2] = Returned ms' \<longrightarrow>
          (\<exists>v vals. map_of ms' (Name s1) = Some v
             \<and> labelValues v (labels_of s1) = Some vals
             \<and> map_of (children v) vals = Some (Value s2)))"
proof -
  have labels: "labels_of s2 = labels_of s1"
    using assms by (simp add: labels_of_def)
  let ?ms1 = "register_name ns (Name s1) ms"
  have reg: "register_name ns (Name s1) ?ms1 = ?ms1"
    by (auto simp: register_name_def update_conv' split: option.splits)
  show ?thesis
  proof (cases "map_of ?ms1 (Name s1)")
    case None
    then show ?thesis
      by (simp add: setMetrics_step_def Let_def assms)
  next
    case (Some v)
    show ?thesis
    proof (cases "labelValues v (labels_of s1)")
      case None
      with Some show ?thesis
        by (simp add: setMetrics_step_def Let_def assms labels With_Set_def)
    next
      case (Some vals)
      let ?v1 = "v\<lparr>children := AList.update vals (Value s1) (children v)\<rparr>"
      let ?v2 = "v\<lparr>children := AList.update vals (Value s2) (children v)\<rparr>"
      have one: "setMetrics_step ns ms s1 = Returned (AList.update (Name s1) ?v1 ?ms1)"
        using \<open>map_of ?ms1 (Name s1) = Some v\<close> Some
        by (simp add: setMetrics_step_def Let_def With_Set_def)
      have only: "setMetrics_step ns ms s2 = Returned (AList.update (Name s1) ?v2 ?ms1)"
        using \<open>map_of ?ms1 (Name s1) = Some v\<close> Some
        by (simp add: setMetrics_step_def Let_def With_Set_def assms labels)
      have seen: "map_of (AList.update (Name s1) ?v1 ?ms1) (Name s2) = Some ?v1"
        by (simp add: update_conv' assms)
      have "labelValues ?v1 (labels_of s2) = labelValues v (labels_of s1)"
        unfolding labels by (rule labelValues_cong) simp
      then have "labelValues ?v1 (labels_of s2) = Some vals"
        unfolding Some .
      then have two: "setMetrics_step ns (AList.update (Name s1) ?v1 ?ms1) s2 =
          Returned (AList.update (Name s1) ?v2 ?ms1)"
        by (simp add: setMetrics_step_seen [OF seen] With_Set_def assms)
      have "labelValues ?v2 (labels_of s1) = labelValues v (labels_of s1)"
        by (rule labelValues_cong) simp
      then have "labelValues ?v2 (labels_of s1) = Some vals"
        unfolding Some .
      then show ?thesis
        by (auto simp: one only two update_conv')
    qed
  qed
qed

theorem later_sample_overwrites_witness:
  "setMetrics ''swift'' (metrics swift_exporter) [sample_foo 1, sample_foo 2]
     = setMetrics ''swift'' (metrics swift_exporter) [sample_foo 2]
   \<and> (\<exists>ms' v. setMetrics ''swift'' (metrics swift_exporter) [sample_foo 1, sample_foo 2]
         = Returned ms'
        \<and> map_of ms' ''foo'' = Some v \<and> children v = [([''object'', ''ok''], 2)])"
proof -
  have same: "Name (sample_foo 2) = Name (sample_foo 1)"
    "Type (sample_foo 2) = Type (sample_foo 1)"
    "Status (sample_foo 2) = Status (sample_foo 1)"
    by (simp_all add: sample_foo_def)
  note a = later_sample_overwrites [OF same, of "''swift''" "metrics swift_exporter"]
  have "\<exists>ms' v. setMetrics ''swift'' (metrics swift_exporter) [sample_foo 2] = Returned ms'
        \<and> map_of ms' ''foo'' = Some v \<and> children v = [([''object'', ''ok''], 2)]"
    by (simp add: swift_exporter_def NewSwiftExporter_def Ping_def sample_foo_def fold_defs)
  with a show ?thesis by simp
qed

section \<open>A whole cycle\<close>

lemma setMetrics_append:
  "setMetrics ns ms (xs @ ys) =
     (case setMetrics ns ms xs of
        Returned ms' \<Rightarrow> setMetrics ns ms' ys
      | Panicked ms' \<Rightarrow> Panicked ms')"
  by (induction xs arbitrary: ms) (simp_all split: outcome.split)

lemma family_shapes_keys: "map fst (family_shapes ms) = map fst ms"
  by (simp add: family_shapes_def split_beta)

lemma family_shapes_lookup:
  "map_of (family_shapes ms) name =
     map_option (\<lambda>v. (fqName v, variableLabels v)) (map_of ms name)"
  by (simp add: family_shapes_def map_of_map)

lemma family_shapes_update:
  "map_of ms name = Some v \<Longrightarrow> fqName v' = fqName v
     \<Longrightarrow> variableLabels v' = variableLabels v
     \<Longrightarrow> family_shapes (AList.update name v' ms) = family_shapes ms"
  by (induction ms) (auto simp: family_shapes_def)

lemma fits_shapes:
  assumes "family_shapes ms' = family_shapes ms"
  shows "fits ms' scr = fits ms scr"
proof -
  from assms have "map_of (family_shapes ms') (Name scr) = map_of (family_shapes ms) (Name scr)"
    by simp
  then have "map_option variableLabels (map_of ms' (Name scr))
      = map_option variableLabels (map_of ms (Name scr))"
    unfolding family_shapes_lookup
    by (cases "map_of ms' (Name scr)"; cases "map_of ms (Name scr)") auto
  then show ?thesis
    by (cases "map_of ms' (Name scr)"; cases "map_of ms (Name scr)")
       (auto simp: fits_def labelValues_def)
qed



lemma setMetrics_step_seen_Returned:
  assumes "map_of ms (Name scr) = Some v" and "setMetrics_step ns ms scr = Returned ms'"
  shows "family_shapes ms' = family_shapes ms"
    and "name \<noteq> Name scr \<Longrightarrow> map_of ms' name = map_of ms name"
proof -
  from assms(2) obtain v' where w: "With_Set v (labels_of scr) (Value scr) = Some v'"
    and ms': "ms' = AList.update (Name scr) v' ms"
    unfolding setMetrics_step_seen [OF assms(1)]
    by (cases "With_Set v (labels_of scr) (Value scr)") simp_all
  from With_Set_Some [OF w] have "fqName v' = fqName v" "variableLabels v' = variableLabels v"
    by auto
  then show "family_shapes ms' = family_shapes ms"
    unfolding ms' by (rule family_shapes_update [OF assms(1)])
  show "map_of ms' name = map_of ms name" if "name \<noteq> Name scr"
    using that unfolding ms' by (simp add: update_conv')
qed

lemma setMetrics_step_fits:
  assumes "fits ms scr"
  shows "\<exists>ms'. setMetrics_step ns ms scr = Returned ms'"
proof -
  from assms obtain v where v: "map_of ms (Name scr) = Some v"
    and l: "labelValues v (labels_of scr) \<noteq> None"
    unfolding fits_def by (cases "map_of ms (Name scr)") simp_all
  from l obtain vals where "labelValues v (labels_of scr) = Some vals" by blast
  then show ?thesis
    unfolding setMetrics_step_seen [OF v] With_Set_def by simp
qed


lemma family_shapes_dom:
  assumes "family_shapes ms' = family_shapes ms"
  shows "fst ` set ms' = fst ` set ms"
proof -
  have "map fst ms' = map fst (family_shapes ms')" by (simp only: family_shapes_keys)
  also have "\<dots> = map fst ms" unfolding assms by (simp only: family_shapes_keys)
  finally have "set (map fst ms') = set (map fst ms)" by (rule arg_cong)
  then show ?thesis by (simp only: set_map)
qed

lemma setMetrics_fits:
  "\<forall>scr \<in> set ss. fits ms scr \<Longrightarrow> \<exists>ms'. setMetrics ns ms ss = Returned ms'"
proof (induction ss arbitrary: ms)
  case Nil
  then show ?case by simp
next
  case (Cons scr ss)
  from Cons.prems have f: "fits ms scr" by simp
  then obtain v where v: "map_of ms (Name scr) = Some v"
    unfolding fits_def by (cases "map_of ms (Name scr)") simp_all
  from setMetrics_step_fits [OF f] obtain ms1 where
    s: "setMetrics_step ns ms scr = Returned ms1" by blast
  from setMetrics_step_seen_Returned(1) [OF v s]
  have "family_shapes ms1 = family_shapes ms" .
  then have "fits ms1 scr' = fits ms scr'" for scr'
    by (rule fits_shapes)
  then have "\<forall>scr \<in> set ss. fits ms1 scr"
    using Cons.prems by simp
  from Cons.IH [OF this] show ?case by (simp add: s)
qed

lemma setMetrics_held_names:
  "setMetrics ns ms ss = Returned ms' \<Longrightarrow> \<forall>scr \<in> set ss. Name scr \<in> fst ` set ms
     \<Longrightarrow> family_shapes ms' = family_shapes ms
       \<and> ((\<forall>scr \<in> set ss. Name scr \<noteq> name) \<longrightarrow> map_of ms' name = map_of ms name)"
proof (induction ss arbitrary: ms)
  case Nil
  then show ?case by simp
next
  case (Cons scr ss)
  from Cons.prems(2) have "Name scr \<in> fst ` set ms" by simp
  then obtain v where v: "map_of ms (Name scr) = Some v"
    by (cases "map_of ms (Name scr)") (simp_all add: map_of_eq_None_iff)
  from Cons.prems(1) obtain ms1 where s: "setMetrics_step ns ms scr = Returned ms1"
    and r: "setMetrics ns ms1 ss = Returned ms'"
    by (cases "setMetrics_step ns ms scr") simp_all
  note step = setMetrics_step_seen_Returned [OF v s]
  from family_shapes_dom [OF step(1)] Cons.prems(2)
  have "\<forall>scr \<in> set ss. Name scr \<in> fst ` set ms1" by simp
  from Cons.IH [OF r this]
  have ih: "family_shapes ms' = family_shapes ms1"
    "(\<forall>scr \<in> set ss. Name scr \<noteq> name) \<longrightarrow> map_of ms' name = map_of ms1 name"
    by blast+
  show ?case
  proof (intro conjI impI)
    show "family_shapes ms' = family_shapes ms" using ih(1) step(1) by simp
    assume "\<forall>s \<in> set (scr # ss). Name s \<noteq> name"
    then have "name \<noteq> Name scr" "\<forall>s \<in> set ss. Name s \<noteq> name" by auto
    with ih(2) step(2) show "map_of ms' name = map_of ms name" by simp
  qed
qed


lemma scrape_subs_samples:
  "fst (scrape_subs ex e) =
     fst (scrapeAsync ex e) @ fst (scrapeReplication ex e) @ fst (scrapeUpdater ex e)
       @ fst (scrapeExpirer ex e) @ fst (scrapeQuarantined ex e)"
  by (simp add: scrape_subs_def split_beta)

lemma scrapeAsync_sample:
  "s \<in> set (fst (scrapeAsync ex e)) \<Longrightarrow>
     Name s = ''async'' \<and> Type s = [] \<and> Status s = ''pending''"
  by (auto simp: scrapeAsync_def split: prod.splits option.splits)

lemma updater_loop_sample:
  "s \<in> set (fst (updater_loop ex e ts)) \<Longrightarrow>
     Name s = ''updater_sweep'' \<and> Type s \<in> set ts \<and> Status s = []"
proof (induction ts)
  case Nil
  then show ?case by simp
next
  case (Cons t ts)
  then show ?case
    by (auto simp: updater_body_def split: prod.splits option.splits)
qed

lemma expirer_loop_sample:
  "s \<in> set (fst (expirer_loop ex e ts)) \<Longrightarrow>
     (Name s = ''expirer_expiration_pass'' \<or> Name s = ''expirer_expired_last_pass'')
     \<and> Type s \<in> set ts \<and> Status s = []"
proof (induction ts)
  case Nil
  then show ?case by simp
next
  case (Cons t ts)
  then show ?case
    by (auto simp: expirer_body_def split: prod.splits option.splits)
qed

lemma quarantined_loop_sample:
  "s \<in> set (quarantined_loop res ts) \<Longrightarrow>
     Name s = ''quarantined'' \<and> Type s \<in> set ts \<and> Status s = []"
  by (induction ts) (auto split: option.splits)

lemma scrapeQuarantined_sample:
  "s \<in> set (fst (scrapeQuarantined ex e)) \<Longrightarrow>
     Name s = ''quarantined'' \<and> Type s \<noteq> [] \<and> Status s = []"
  by (auto simp: scrapeQuarantined_def split: prod.splits option.splits
      dest!: quarantined_loop_sample)

text \<open>
  The samples of a cycle by their labels: one status for async, one type for the
  type-labelled families, a type and the key of the map for replication_stats.
\<close>

lemma scrape_subs_sample:
  assumes "s \<in> set (fst (scrape_subs ex e))"
  shows "Name s = ''async'' \<and> Type s = [] \<and> Status s \<noteq> []
     \<or> Name s \<in> {''replication_time'', ''replication_last'', ''updater_sweep'',
          ''expirer_expiration_pass'', ''expirer_expired_last_pass'', ''quarantined''}
        \<and> Type s \<noteq> [] \<and> Status s = []
     \<or> Name s = ''replication_stats'' \<and> Type s \<noteq> []"
proof -
  from assms consider
      (a) "s \<in> set (fst (scrapeAsync ex e))"
    | (r) "s \<in> set (fst (scrapeReplication ex e))"
    | (u) "s \<in> set (fst (scrapeUpdater ex e))"
    | (x) "s \<in> set (fst (scrapeExpirer ex e))"
    | (q) "s \<in> set (fst (scrapeQuarantined ex e))"
    unfolding scrape_subs_samples by auto
  then show ?thesis
  proof cases
    case a
    from scrapeAsync_sample [OF a] show ?thesis by simp
  next
    case r
    from replication_loop_sample [OF r [unfolded scrapeReplication_def]]
    show ?thesis by auto
  next
    case u
    from updater_loop_sample [OF u [unfolded scrapeUpdater_def]]
    show ?thesis by auto
  next
    case x
    from expirer_loop_sample [OF x [unfolded scrapeExpirer_def]]
    show ?thesis by auto
  next
    case q
    from scrapeQuarantined_sample [OF q] show ?thesis by simp
  qed
qed

lemma fits_catalog:
  assumes "Name s = ''async'' \<and> Type s = [] \<and> Status s \<noteq> []
     \<or> Name s \<in> {''replication_time'', ''replication_last'', ''updater_sweep'',
          ''expirer_expiration_pass'', ''expirer_expired_last_pass'', ''quarantined''}
        \<and> Type s \<noteq> [] \<and> Status s = []
     \<or> Name s = ''replication_stats'' \<and> Type s \<noteq> [] \<and> Status s \<noteq> []"
  shows "fits (metrics (initGauges ex)) s"
proof -
  from assms consider
      (a) "Name s = ''async''" "Type s = []" "Status s \<noteq> []"
    | (t) "Name s \<in> {''replication_time'', ''replication_last'', ''updater_sweep'',
          ''expirer_expiration_pass'', ''expirer_expired_last_pass'', ''quarantined''}"
        "Type s \<noteq> []" "Status s = []"
    | (r) "Name s = ''replication_stats''" "Type s \<noteq> []" "Status s \<noteq> []"
    by blast
  then show ?thesis
  proof cases
    case a
    then show ?thesis
      by (simp add: fits_def metrics_initGauges NewGaugeVec_def labels_of_def labelValues_def)
  next
    case t
    from t(1) consider "Name s = ''replication_time''" | "Name s = ''replication_last''"
      | "Name s = ''updater_sweep''" | "Name s = ''expirer_expiration_pass''"
      | "Name s = ''expirer_expired_last_pass''" | "Name s = ''quarantined''"
      by blast
    then show ?thesis
      using t(2,3)
      by cases
        (simp_all add: fits_def metrics_initGauges NewGaugeVec_def labels_of_def
          labelValues_def)
  next
    case r
    then show ?thesis
      by (simp add: fits_def metrics_initGauges NewGaugeVec_def labels_of_def labelValues_def)
  qed
qed








section \<open>Failed requests and the cycle\<close>

lemma replication_stats_loop_origin:
  "s \<in> set (replication_stats_loop t kvs) \<Longrightarrow> (Status s, JNumber (Value s)) \<in> set kvs"
proof (induction t kvs rule: replication_stats_loop.induct)
  case (1 t)
  then show ?case by simp
next
  case (2 t status "value" rest)
  then show ?case
    by (cases "value") (auto split: if_splits)
qed

lemma replication_body_origin:
  assumes "s \<in> set (replication_body t res)" and "Name s = ''replication_stats''"
  shows "\<exists>kvs. as_map (map_of res ''replication_stats'') = Some kvs
     \<and> (Status s, JNumber (Value s)) \<in> set kvs"
proof (cases "as_map (map_of res ''replication_stats'')")
  case None
  with assms show ?thesis
    by (auto simp: replication_body_def split: option.splits)
next
  case (Some kvs)
  with assms have "s \<in> set (replication_stats_loop t kvs)"
    by (auto simp: replication_body_def split: option.splits)
  from replication_stats_loop_origin [OF this] Some show ?thesis by simp
qed

lemma replication_loop_origin:
  "s \<in> set (fst (replication_loop ex e ts)) \<Longrightarrow> Name s = ''replication_stats'' \<Longrightarrow>
     \<exists>t \<in> set ts. \<exists>kvs. snd (request ex e (''replication/'' @ t)) = None
       \<and> as_map (map_of (fst (request ex e (''replication/'' @ t))) ''replication_stats'')
           = Some kvs
       \<and> (Status s, JNumber (Value s)) \<in> set kvs"
proof (induction ts)
  case Nil
  then show ?case by simp
next
  case (Cons t ts)
  obtain res err where r: "request ex e (''replication/'' @ t) = (res, err)"
    by (cases "request ex e (''replication/'' @ t)")
  show ?case
  proof (cases err)
    case (Some msg)
    with Cons.prems r show ?thesis by simp
  next
    case None
    with Cons.prems(1) r have "s \<in> set (replication_body t res)
        \<or> s \<in> set (fst (replication_loop ex e ts))"
      by (auto split: prod.splits)
    then show ?thesis
    proof
      assume "s \<in> set (replication_body t res)"
      from replication_body_origin [OF this Cons.prems(2)] r None
      show ?thesis by auto
    next
      assume "s \<in> set (fst (replication_loop ex e ts))"
      from Cons.IH [OF this Cons.prems(2)] show ?thesis by auto
    qed
  qed
qed

lemma scrape_subs_stats_origin:
  assumes "s \<in> set (fst (scrape_subs ex e))" and "Name s = ''replication_stats''"
  shows "\<exists>t \<in> set [''container'', ''account'', ''object'']. \<exists>kvs.
       snd (request ex e (''replication/'' @ t)) = None
       \<and> as_map (map_of (fst (request ex e (''replication/'' @ t))) ''replication_stats'')
           = Some kvs
       \<and> (Status s, JNumber (Value s)) \<in> set kvs"
proof -
  from assms(1) consider
      (a) "s \<in> set (fst (scrapeAsync ex e))"
    | (r) "s \<in> set (fst (replication_loop ex e [''container'', ''account'', ''object'']))"
    | (u) "s \<in> set (fst (updater_loop ex e [''container'', ''object'']))"
    | (x) "s \<in> set (fst (expirer_loop ex e [''object'']))"
    | (q) "s \<in> set (fst (scrapeQuarantined ex e))"
    unfolding scrape_subs_samples scrapeReplication_def scrapeUpdater_def scrapeExpirer_def
    by auto
  then show ?thesis
  proof cases
    case a
    from scrapeAsync_sample [OF a] assms(2) show ?thesis by simp
  next
    case r
    from replication_loop_origin [OF r assms(2)] show ?thesis .
  next
    case u
    from updater_loop_sample [OF u] assms(2) show ?thesis by simp
  next
    case x
    from expirer_loop_sample [OF x] assms(2) show ?thesis by auto
  next
    case q
    from scrapeQuarantined_sample [OF q] assms(2) show ?thesis by simp
  qed
qed

text \<open>A cycle whose samples all fit the catalog returns.\<close>

lemma Collect_returns:
  assumes "\<forall>s \<in> set (fst (scrape_subs ex e)).
      Name s = ''replication_stats'' \<longrightarrow> Status s \<noteq> []"
  shows "\<exists>ex' rest. Collect ex e = Returned (ex',
           [Metric (BuildFQName (namespace ex) ''exporter_last_scrape_duration_seconds'') []
              (elapsed e),
            Metric (BuildFQName (namespace ex) ''exporter_scrapes_total'') [] 1,
            Metric (BuildFQName (namespace ex) ''exporter_last_scrape_error'') [] 0]
           @ rest)"
proof -
  have "fits (metrics (initGauges ex)) s" if s: "s \<in> set (fst (scrape_subs ex e))" for s
    using scrape_subs_sample [OF s] assms [rule_format, OF s]
    by (intro fits_catalog) blast
  then have "\<forall>s \<in> set (fst (scrape_subs ex e)). fits (metrics (initGauges ex)) s"
    by blast
  from setMetrics_fits [OF this, of "namespace ex"] obtain ms where
    "setMetrics (namespace ex) (metrics (initGauges ex)) (fst (scrape_subs ex e)) = Returned ms"
    by blast
  then show ?thesis by (simp add: Collect_unfold)
qed

text \<open>
  Claim C1, as amended. A fetch or decode error on a request ends the sub-scrape there: the
  error is logged, the failing request and the requests after it send no sample, and the
  samples of the requests made before it have been sent. So the async, quarantined and
  expirer sub-scrapes (one request each) send nothing; the replication and updater
  sub-scrapes send exactly the samples of the subsystems requested before the failing one
  (nothing when their first request fails). No error is raised out of the cycle: the
  sub-scrapes return no error, and whichever requests fail, the cycle returns normally
  with the three health scalars first (and alone when every request fails), as long as no
  answered replication request carries a number under the empty key of its
  \<open>replication_stats\<close> map, the one sample whose labels the library rejects.
\<close>

theorem failed_request_ends_sub_scrape:
  "(snd (request ex e ''async'') = Some err \<longrightarrow> scrapeAsync ex e = ([], [err]))
   \<and> (snd (request ex e ''quarantined'') = Some err \<longrightarrow>
        scrapeQuarantined ex e = ([], [err]))
   \<and> (snd (request ex e ''expirer/object'') = Some err \<longrightarrow>
        scrapeExpirer ex e = ([], [err]))
   \<and> ([''container'', ''account'', ''object''] = ts1 @ t # ts2
        \<and> (\<forall>t' \<in> set ts1. snd (request ex e (''replication/'' @ t')) = None)
        \<and> snd (request ex e (''replication/'' @ t)) = Some err \<longrightarrow>
        scrapeReplication ex e =
          (concat (map (\<lambda>t'. replication_body t' (fst (request ex e (''replication/'' @ t'))))
             ts1), [err]))
   \<and> ([''container'', ''object''] = ts1 @ t # ts2
        \<and> (\<forall>t' \<in> set ts1. snd (request ex e (''updater/'' @ t')) = None)
        \<and> snd (request ex e (''updater/'' @ t)) = Some err \<longrightarrow>
        scrapeUpdater ex e =
          (concat (map (\<lambda>t'. updater_body t' (fst (request ex e (''updater/'' @ t')))) ts1),
           [err]))
   \<and> ((\<forall>m. snd (request ex e m) \<noteq> None) \<longrightarrow>
        (\<exists>ex'. Collect ex e = Returned (ex',
           [Metric (BuildFQName (namespace ex) ''exporter_last_scrape_duration_seconds'') []
              (elapsed e),
            Metric (BuildFQName (namespace ex) ''exporter_scrapes_total'') [] 1,
            Metric (BuildFQName (namespace ex) ''exporter_last_scrape_error'') [] 0])))
   \<and> ((\<forall>t \<in> set [''container'', ''account'', ''object'']. \<forall>kvs x.
          snd (request ex e (''replication/'' @ t)) = None
          \<and> as_map (map_of (fst (request ex e (''replication/'' @ t))) ''replication_stats'')
              = Some kvs
          \<longrightarrow> ([], JNumber x) \<notin> set kvs) \<longrightarrow>
        (\<exists>ex' rest. Collect ex e = Returned (ex',
           [Metric (BuildFQName (namespace ex) ''exporter_last_scrape_duration_seconds'') []
              (elapsed e),
            Metric (BuildFQName (namespace ex) ''exporter_scrapes_total'') [] 1,
            Metric (BuildFQName (namespace ex) ''exporter_last_scrape_error'') [] 0]
           @ rest)))"
proof (intro conjI impI)
  assume "snd (request ex e ''async'') = Some err"
  then show "scrapeAsync ex e = ([], [err])"
    by (cases "request ex e ''async''") (simp add: scrapeAsync_def)
next
  assume "snd (request ex e ''quarantined'') = Some err"
  then show "scrapeQuarantined ex e = ([], [err])"
    by (cases "request ex e ''quarantined''") (simp add: scrapeQuarantined_def)
next
  assume "snd (request ex e ''expirer/object'') = Some err"
  then show "scrapeExpirer ex e = ([], [err])"
    by (cases "request ex e ''expirer/object''") (simp add: scrapeExpirer_def)
next
  assume h: "[''container'', ''account'', ''object''] = ts1 @ t # ts2
        \<and> (\<forall>t' \<in> set ts1. snd (request ex e (''replication/'' @ t')) = None)
        \<and> snd (request ex e (''replication/'' @ t)) = Some err"
  then have ok: "\<forall>t' \<in> set ts1. snd (request ex e (''replication/'' @ t')) = None"
    and bad: "snd (request ex e (''replication/'' @ t)) = Some err"
    by blast+
  show "scrapeReplication ex e =
      (concat (map (\<lambda>t'. replication_body t' (fst (request ex e (''replication/'' @ t'))))
         ts1), [err])"
    unfolding scrapeReplication_def conjunct1 [OF h]
      replication_loop_split [OF ok] replication_loop_failed [OF bad]
    by simp
next
  assume h: "[''container'', ''object''] = ts1 @ t # ts2
        \<and> (\<forall>t' \<in> set ts1. snd (request ex e (''updater/'' @ t')) = None)
        \<and> snd (request ex e (''updater/'' @ t)) = Some err"
  then have ok: "\<forall>t' \<in> set ts1. snd (request ex e (''updater/'' @ t')) = None"
    and bad: "snd (request ex e (''updater/'' @ t)) = Some err"
    by blast+
  show "scrapeUpdater ex e =
      (concat (map (\<lambda>t'. updater_body t' (fst (request ex e (''updater/'' @ t')))) ts1),
       [err])"
    unfolding scrapeUpdater_def conjunct1 [OF h]
      updater_loop_split [OF ok] updater_loop_failed [OF bad]
    by simp
next
  assume "\<forall>m. snd (request ex e m) \<noteq> None"
  then show "\<exists>ex'. Collect ex e = Returned (ex',
           [Metric (BuildFQName (namespace ex) ''exporter_last_scrape_duration_seconds'') []
              (elapsed e),
            Metric (BuildFQName (namespace ex) ''exporter_scrapes_total'') [] 1,
            Metric (BuildFQName (namespace ex) ''exporter_last_scrape_error'') [] 0])"
    by (intro Collect_no_samples all_failed_no_samples)
next
  assume keys: "\<forall>t \<in> set [''container'', ''account'', ''object'']. \<forall>kvs x.
          snd (request ex e (''replication/'' @ t)) = None
          \<and> as_map (map_of (fst (request ex e (''replication/'' @ t))) ''replication_stats'')
              = Some kvs
          \<longrightarrow> ([], JNumber x) \<notin> set kvs"
  have "Status s \<noteq> []"
    if s: "s \<in> set (fst (scrape_subs ex e))" and n: "Name s = ''replication_stats''" for s
  proof
    assume empty: "Status s = []"
    from scrape_subs_stats_origin [OF s n] obtain t kvs where
      "t \<in> set [''container'', ''account'', ''object'']"
      "snd (request ex e (''replication/'' @ t)) = None"
      "as_map (map_of (fst (request ex e (''replication/'' @ t))) ''replication_stats'')
        = Some kvs"
      "(Status s, JNumber (Value s)) \<in> set kvs"
      by blast
    with keys empty show False by fastforce
  qed
  then have "\<forall>s \<in> set (fst (scrape_subs ex e)).
      Name s = ''replication_stats'' \<longrightarrow> Status s \<noteq> []"
    by blast
  then show "\<exists>ex' rest. Collect ex e = Returned (ex',
           [Metric (BuildFQName (namespace ex) ''exporter_last_scrape_duration_seconds'') []
              (elapsed e),
            Metric (BuildFQName (namespace ex) ''exporter_scrapes_total'') [] 1,
            Metric (BuildFQName (namespace ex) ''exporter_last_scrape_error'') [] 0]
           @ rest)"
    by (rule Collect_returns)
qed

lemma request_partial:
  "request swift_exporter env_partial ''replication/container'' =
     ([(''replication_time'', JNumber (3 / 2))], None)"
  "request swift_exporter env_partial ''replication/account'' =
     ([], Some ''unexpected end of JSON input'')"
  "request swift_exporter env_partial ''async'' = ([], Some ''connection refused'')"
  "request swift_exporter env_partial ''quarantined'' = ([], Some ''connection refused'')"
  "request swift_exporter env_partial ''expirer/object'' = ([], Some ''connection refused'')"
  "request swift_exporter env_partial ''updater/container'' = ([], Some ''connection refused'')"
  "request swift_exporter env_partial ''replication/object'' = ([], Some ''connection refused'')"
  by (simp_all add: request_def swift_exporter_fields env_partial_def serve_def)

theorem failed_request_ends_sub_scrape_counterexample:
  "snd (request swift_exporter env_partial ''replication/account'') =
     Some ''unexpected end of JSON input''
   \<and> fst (scrapeReplication swift_exporter env_partial) =
     [\<lparr>Name = ''replication_time'', Value = 3 / 2, Type = ''container'', Status = []\<rparr>]
   \<and> fst (scrapeReplication swift_exporter env_partial) \<noteq> []"
  by (simp add: scrapeReplication_def request_partial replication_body_def)


theorem failed_request_ends_sub_scrape_witness:
  "scrapeReplication swift_exporter env_partial =
     ([\<lparr>Name = ''replication_time'', Value = 3 / 2, Type = ''container'', Status = []\<rparr>],
      [''unexpected end of JSON input''])
   \<and> scrapeAsync swift_exporter env_partial = ([], [''connection refused''])
   \<and> scrapeQuarantined swift_exporter env_partial = ([], [''connection refused''])
   \<and> scrapeExpirer swift_exporter env_partial = ([], [''connection refused''])
   \<and> scrapeUpdater swift_exporter env_partial = ([], [''connection refused''])
   \<and> (\<exists>ex'. Collect swift_exporter env_down = Returned (ex',
         [Metric ''swift_exporter_last_scrape_duration_seconds'' [] (1 / 4),
          Metric ''swift_exporter_scrapes_total'' [] 1,
          Metric ''swift_exporter_last_scrape_error'' [] 0]))
   \<and> (\<exists>ex' rest. Collect swift_exporter env_partial = Returned (ex',
         [Metric ''swift_exporter_last_scrape_duration_seconds'' [] (1 / 4),
          Metric ''swift_exporter_scrapes_total'' [] 1,
          Metric ''swift_exporter_last_scrape_error'' [] 0] @ rest))"
proof -
  note a = failed_request_ends_sub_scrape [where ex = swift_exporter and e = env_partial
      and err = "''unexpected end of JSON input''" and ?ts1.0 = "[''container'']"
      and t = "''account''" and ?ts2.0 = "[''object'']"]
  note b = failed_request_ends_sub_scrape [where ex = swift_exporter and e = env_partial
      and err = "''connection refused''" and ?ts1.0 = "[]"
      and t = "''container''" and ?ts2.0 = "[''object'']"]
  note c = failed_request_ends_sub_scrape [where ex = swift_exporter and e = env_down
      and err = "''connection refused''" and ?ts1.0 = "[]"
      and t = "''container''" and ?ts2.0 = "[''object'']"]
  have down: "\<forall>m. snd (request swift_exporter env_down m) \<noteq> None"
    by (simp add: request_def env_down_def serve_def)
  have r: "scrapeReplication swift_exporter env_partial =
     ([\<lparr>Name = ''replication_time'', Value = 3 / 2, Type = ''container'', Status = []\<rparr>],
      [''unexpected end of JSON input''])"
    using a by (simp add: request_partial replication_body_def)
  have s: "scrapeAsync swift_exporter env_partial = ([], [''connection refused''])"
    "scrapeQuarantined swift_exporter env_partial = ([], [''connection refused''])"
    "scrapeExpirer swift_exporter env_partial = ([], [''connection refused''])"
    "scrapeUpdater swift_exporter env_partial = ([], [''connection refused''])"
    using b by (simp_all add: request_partial)
  have d: "\<exists>ex'. Collect swift_exporter env_down = Returned (ex',
         [Metric ''swift_exporter_last_scrape_duration_seconds'' [] (1 / 4),
          Metric ''swift_exporter_scrapes_total'' [] 1,
          Metric ''swift_exporter_last_scrape_error'' [] 0])"
    using c down by (simp add: swift_exporter_fields BuildFQName_def env_down_def)
  have keys: "\<forall>t \<in> set [''container'', ''account'', ''object'']. \<forall>kvs x.
          snd (request swift_exporter env_partial (''replication/'' @ t)) = None
          \<and> as_map (map_of (fst (request swift_exporter env_partial (''replication/'' @ t)))
               ''replication_stats'') = Some kvs
          \<longrightarrow> ([], JNumber x) \<notin> set kvs"
    by (simp add: request_partial)
  have p: "\<exists>ex' rest. Collect swift_exporter env_partial = Returned (ex',
         [Metric ''swift_exporter_last_scrape_duration_seconds'' [] (1 / 4),
          Metric ''swift_exporter_scrapes_total'' [] 1,
          Metric ''swift_exporter_last_scrape_error'' [] 0] @ rest)"
    using a keys by (simp add: swift_exporter_fields BuildFQName_def env_partial_def)
  from r s d p show ?thesis by blast
qed

section \<open>The quarantined scenario\<close>

lemma Collect_vec_names: "m \<in> set (Collect_vec v) \<Longrightarrow> metric_name m = fqName v"
  by (auto simp: Collect_vec_def)

lemma emitted_family:
  assumes "distinct (map fst ms)" and "map_of ms key = Some v"
    and "\<forall>(name, fq, ls) \<in> set (family_shapes ms). (fq = N) = (name = key)"
  shows "filter (\<lambda>m. metric_name m = N) (concat (map (\<lambda>(name, m). Collect_vec m) ms))
     = Collect_vec v"
  using assms
proof (induction ms)
  case Nil
  then show ?case by simp
next
  case (Cons entry ms)
  obtain name w where entry: "entry = (name, w)" by (cases entry)
  from Cons.prems(3) have here: "(fqName w = N) = (name = key)"
    and rest: "\<forall>(name, fq, ls) \<in> set (family_shapes ms). (fq = N) = (name = key)"
    by (simp_all add: entry family_shapes_def)
  show ?case
  proof (cases "name = key")
    case True
    with Cons.prems(2) have w: "w = v" by (simp add: entry)
    from True Cons.prems(1) have "key \<notin> fst ` set ms" by (simp add: entry)
    with rest have "\<forall>(name, fq, ls) \<in> set (family_shapes ms). fq \<noteq> N"
      by (force simp: family_shapes_def)
    then have "filter (\<lambda>m. metric_name m = N)
        (concat (map (\<lambda>(name, m). Collect_vec m) ms)) = []"
      by (force simp: filter_empty_conv family_shapes_def dest!: Collect_vec_names)
    moreover from here True w have "filter (\<lambda>m. metric_name m = N) (Collect_vec v)
        = Collect_vec v"
      by (auto simp: filter_id_conv dest!: Collect_vec_names)
    ultimately show ?thesis by (simp add: entry w)
  next
    case False
    with here have "filter (\<lambda>m. metric_name m = N) (Collect_vec w) = []"
      by (auto simp: filter_empty_conv dest!: Collect_vec_names)
    moreover from False Cons.prems have "distinct (map fst ms)" "map_of ms key = Some v"
      by (simp_all add: entry)
    ultimately show ?thesis
      using Cons.IH rest by (simp add: entry)
  qed
qed

lemma catalog_shapes:
  "family_shapes (metrics (initGauges ex)) =
     [(''async'', BuildFQName (namespace ex) ''async'', [''status'']),
      (''replication_time'', BuildFQName (namespace ex) ''replication_time'', [''type'']),
      (''replication_last'', BuildFQName (namespace ex) ''replication_last'', [''type'']),
      (''replication_stats'', BuildFQName (namespace ex) ''replication_stats'',
         [''type'', ''status'']),
      (''updater_sweep'', BuildFQName (namespace ex) ''updater_sweep'', [''type'']),
      (''expirer_expiration_pass'', BuildFQName (namespace ex) ''expirer_expiration_pass'',
         [''type'']),
      (''expirer_expired_last_pass'', BuildFQName (namespace ex) ''expired_last_pass'',
         [''type'']),
      (''quarantined'', BuildFQName (namespace ex) ''quarantined'', [''type''])]"
  by (simp add: family_shapes_def metrics_initGauges NewGaugeVec_def)

lemma catalog_quarantined_name:
  "\<forall>(name, fq, ls) \<in> set (family_shapes (metrics (initGauges ex))).
     (fq = BuildFQName (namespace ex) ''quarantined'') = (name = ''quarantined'')"
  unfolding catalog_shapes by (simp add: BuildFQName_def)

lemma catalog_names:
  assumes "Name s = ''async'' \<and> Type s = [] \<and> Status s \<noteq> []
     \<or> Name s \<in> {''replication_time'', ''replication_last'', ''updater_sweep'',
          ''expirer_expiration_pass'', ''expirer_expired_last_pass'', ''quarantined''}
        \<and> Type s \<noteq> [] \<and> Status s = []
     \<or> Name s = ''replication_stats'' \<and> Type s \<noteq> []"
  shows "Name s \<in> fst ` set (metrics (initGauges ex))"
proof -
  have "fst ` set (metrics (initGauges ex)) = set (map fst (metrics (initGauges ex)))"
    by simp
  also have "\<dots> = {''async'', ''replication_time'', ''replication_last'',
      ''replication_stats'', ''updater_sweep'', ''expirer_expiration_pass'',
      ''expirer_expired_last_pass'', ''quarantined''}"
    unfolding metrics_initGauges by simp
  finally show ?thesis using assms by blast
qed


text \<open>Folding samples of one type-labelled family the registry holds.\<close>

lemma setMetrics_type_family:
  assumes "map_of ms name = Some v" and "variableLabels v = [''type'']"
    and "\<forall>s \<in> set ss. Name s = name \<and> Type s \<noteq> [] \<and> Status s = []"
  shows "\<exists>v'. setMetrics ns ms ss = Returned (AList.update name v' ms)
     \<and> fqName v' = fqName v \<and> variableLabels v' = [''type'']
     \<and> children v' = foldl (\<lambda>c s. AList.update [Type s] (Value s) c) (children v) ss"
  using assms
proof (induction ss arbitrary: ms v)
  case Nil
  have "AList.update name v ms = ms" by (rule update_triv) (rule Nil.prems(1))
  with Nil.prems(2) show ?case by (intro exI [of _ v]) simp
next
  case (Cons s ss)
  from Cons.prems(3) have s: "Name s = name" "Type s \<noteq> []" "Status s = []" by simp_all
  let ?v1 = "v\<lparr>children := AList.update [Type s] (Value s) (children v)\<rparr>"
  have look: "map_of ms (Name s) = Some v" using Cons.prems(1) s(1) by simp
  have "labelValues v (labels_of s) = Some [Type s]"
    using s Cons.prems(2) by (simp add: labelValues_def labels_of_def)
  then have step: "setMetrics_step ns ms s = Returned (AList.update name ?v1 ms)"
    unfolding setMetrics_step_seen [OF look] With_Set_def s(1) by simp
  have "map_of (AList.update name ?v1 ms) name = Some ?v1" by (simp add: update_conv')
  moreover have "variableLabels ?v1 = [''type'']" using Cons.prems(2) by simp
  moreover have "\<forall>s \<in> set ss. Name s = name \<and> Type s \<noteq> [] \<and> Status s = []"
    using Cons.prems(3) by simp
  ultimately obtain v' where
    v': "setMetrics ns (AList.update name ?v1 ms) ss
          = Returned (AList.update name v' (AList.update name ?v1 ms))"
      "fqName v' = fqName ?v1" "variableLabels v' = [''type'']"
      "children v' = foldl (\<lambda>c s. AList.update [Type s] (Value s) c) (children ?v1) ss"
    using Cons.IH [of "AList.update name ?v1 ms" ?v1] by blast
  then show ?case by (auto simp: step)
qed

text \<open>
  Claim C9. When the quarantined resource returns an object with objects = 5,
  accounts = 0 and containers = 2, the quarantined sub-scrape sends exactly the three
  samples quarantined with type container = 2, type account = 0 and type object = 5
  (the plural key read for the singular type), and a cycle that returns sends to the
  caller exactly these three metrics of the quarantined family.
\<close>

theorem quarantined_scenario:
  assumes "request ex e ''quarantined'' = (res, None)"
    and "map_of res ''objects'' = Some (JNumber 5)"
    and "map_of res ''accounts'' = Some (JNumber 0)"
    and "map_of res ''containers'' = Some (JNumber 2)"
  shows "fst (scrapeQuarantined ex e) =
       [\<lparr>Name = ''quarantined'', Value = 2, Type = ''container'', Status = []\<rparr>,
        \<lparr>Name = ''quarantined'', Value = 0, Type = ''account'', Status = []\<rparr>,
        \<lparr>Name = ''quarantined'', Value = 5, Type = ''object'', Status = []\<rparr>]
     \<and> (\<forall>ex' out. Collect ex e = Returned (ex', out) \<longrightarrow>
          set (filter (\<lambda>m. metric_name m = BuildFQName (namespace ex) ''quarantined'') out) =
            {Metric (BuildFQName (namespace ex) ''quarantined'') [(''type'', ''container'')] 2,
             Metric (BuildFQName (namespace ex) ''quarantined'') [(''type'', ''account'')] 0,
             Metric (BuildFQName (namespace ex) ''quarantined'') [(''type'', ''object'')] 5}
          \<and> length (filter (\<lambda>m. metric_name m = BuildFQName (namespace ex) ''quarantined'')
                out) = 3)"
proof -
  let ?q = "[\<lparr>Name = ''quarantined'', Value = 2, Type = ''container'', Status = []\<rparr>,
        \<lparr>Name = ''quarantined'', Value = 0, Type = ''account'', Status = []\<rparr>,
        \<lparr>Name = ''quarantined'', Value = 5, Type = ''object'', Status = []\<rparr>]"
  let ?ms0 = "metrics (initGauges ex)"
  let ?ns = "namespace ex"
  let ?N = "BuildFQName (namespace ex) ''quarantined''"
  let ?v0 = "NewGaugeVec (GaugeOpts (namespace ex) ''quarantined'' ''quarantined metric'')
      [''type'']"
  have q: "fst (scrapeQuarantined ex e) = ?q"
    by (simp add: scrapeQuarantined_def assms)
  have cycle: "filter (\<lambda>m. metric_name m = ?N) out =
            [Metric ?N [(''type'', ''container'')] 2,
             Metric ?N [(''type'', ''account'')] 0,
             Metric ?N [(''type'', ''object'')] 5]"
    if c: "Collect ex e = Returned (ex', out)" for ex' out
  proof -
  define pre where "pre = fst (scrapeAsync ex e) @ fst (scrapeReplication ex e)
      @ fst (scrapeUpdater ex e) @ fst (scrapeExpirer ex e)"
  have samples: "fst (scrape_subs ex e) = pre @ ?q"
    by (simp add: scrape_subs_samples pre_def q)
  from c obtain ms' where fold: "setMetrics ?ns ?ms0 (pre @ ?q) = Returned ms'"
    and out: "out =
       [Metric (BuildFQName ?ns ''exporter_last_scrape_duration_seconds'') [] (elapsed e),
        Metric (BuildFQName ?ns ''exporter_scrapes_total'') [] 1,
        Metric (BuildFQName ?ns ''exporter_last_scrape_error'') [] 0]
       @ concat (map (\<lambda>(name, m). Collect_vec m) ms')"
    unfolding Collect_unfold samples
    by (cases "setMetrics ?ns ?ms0 (pre @ ?q)") auto
  from fold obtain m1 where f1: "setMetrics ?ns ?ms0 pre = Returned m1"
    and f2: "setMetrics ?ns m1 ?q = Returned ms'"
    unfolding setMetrics_append by (cases "setMetrics ?ns ?ms0 pre") simp_all
  have held: "\<forall>s \<in> set pre. Name s \<in> fst ` set ?ms0"
  proof
    fix s assume "s \<in> set pre"
    then have "s \<in> set (fst (scrape_subs ex e))" unfolding samples by simp
    from catalog_names [OF scrape_subs_sample [OF this]]
    show "Name s \<in> fst ` set ?ms0" .
  qed
  have others: "\<forall>s \<in> set pre. Name s \<noteq> ''quarantined''"
  proof
    fix s assume "s \<in> set pre"
    then consider
        (a) "s \<in> set (fst (scrapeAsync ex e))"
      | (r) "s \<in> set (fst (replication_loop ex e [''container'', ''account'', ''object'']))"
      | (u) "s \<in> set (fst (updater_loop ex e [''container'', ''object'']))"
      | (x) "s \<in> set (fst (expirer_loop ex e [''object'']))"
      unfolding pre_def scrapeReplication_def scrapeUpdater_def scrapeExpirer_def by auto
    then show "Name s \<noteq> ''quarantined''"
    proof cases
      case a
      from scrapeAsync_sample [OF a] show ?thesis by simp
    next
      case r
      from replication_loop_sample [OF r] show ?thesis by auto
    next
      case u
      from updater_loop_sample [OF u] show ?thesis by simp
    next
      case x
      from expirer_loop_sample [OF x] show ?thesis by auto
    qed
  qed
  from setMetrics_held_names [OF f1 held, of "''quarantined''"] others
  have shapes1: "family_shapes m1 = family_shapes ?ms0"
    and "map_of m1 ''quarantined'' = map_of ?ms0 ''quarantined''"
    by blast+
  then have look1: "map_of m1 ''quarantined'' = Some ?v0"
    by (simp add: metrics_initGauges)
  have labels0: "variableLabels ?v0 = [''type'']" by (simp add: NewGaugeVec_def)
  have "\<forall>s \<in> set ?q. Name s = ''quarantined'' \<and> Type s \<noteq> [] \<and> Status s = []"
    by simp
  from setMetrics_type_family [OF look1 labels0 this, of ?ns] f2
  obtain v3 where ms': "ms' = AList.update ''quarantined'' v3 m1"
    and v3: "fqName v3 = ?N" "variableLabels v3 = [''type'']"
      "children v3 = [([''container''], 2), ([''account''], 0), ([''object''], 5)]"
    by (auto simp: NewGaugeVec_def)
  have shapes': "family_shapes ms' = family_shapes ?ms0"
    unfolding ms' shapes1 [symmetric]
    by (rule family_shapes_update [OF look1]) (simp_all add: v3 NewGaugeVec_def)
  have "map fst ms' = map fst (family_shapes ms')" by (simp only: family_shapes_keys)
  then have "distinct (map fst ms')"
    unfolding shapes' catalog_shapes by simp
  moreover have "map_of ms' ''quarantined'' = Some v3"
    unfolding ms' by (simp add: update_conv')
  moreover have "\<forall>(name, fq, ls) \<in> set (family_shapes ms').
      (fq = ?N) = (name = ''quarantined'')"
    unfolding shapes' by (rule catalog_quarantined_name)
  ultimately have emitted: "filter (\<lambda>m. metric_name m = ?N)
      (concat (map (\<lambda>(name, m). Collect_vec m) ms')) = Collect_vec v3"
    by (rule emitted_family)
  have family: "Collect_vec v3 =
            [Metric ?N [(''type'', ''container'')] 2,
             Metric ?N [(''type'', ''account'')] 0,
             Metric ?N [(''type'', ''object'')] 5]"
    by (simp add: Collect_vec_def v3)
  have health: "filter (\<lambda>m. metric_name m = ?N)
       [Metric (BuildFQName ?ns ''exporter_last_scrape_duration_seconds'') [] (elapsed e),
        Metric (BuildFQName ?ns ''exporter_scrapes_total'') [] 1,
        Metric (BuildFQName ?ns ''exporter_last_scrape_error'') [] 0] = []"
    by (simp add: BuildFQName_def)
  show "filter (\<lambda>m. metric_name m = ?N) out =
            [Metric ?N [(''type'', ''container'')] 2,
             Metric ?N [(''type'', ''account'')] 0,
             Metric ?N [(''type'', ''object'')] 5]"
    unfolding out filter_append emitted family health by simp
  qed
  show ?thesis
  proof (intro conjI allI impI)
    show "fst (scrapeQuarantined ex e) = ?q" by (rule q)
  next
    fix ex' out
    assume "Collect ex e = Returned (ex', out)"
    from cycle [OF this]
    show "set (filter (\<lambda>m. metric_name m = ?N) out) =
            {Metric ?N [(''type'', ''container'')] 2,
             Metric ?N [(''type'', ''account'')] 0,
             Metric ?N [(''type'', ''object'')] 5}"
      by simp
  next
    fix ex' out
    assume "Collect ex e = Returned (ex', out)"
    from cycle [OF this]
    show "length (filter (\<lambda>m. metric_name m = ?N) out) = 3"
      by simp
  qed
qed


theorem quarantined_scenario_witness:
  "fst (scrapeQuarantined swift_exporter env_quarantined) =
       [\<lparr>Name = ''quarantined'', Value = 2, Type = ''container'', Status = []\<rparr>,
        \<lparr>Name = ''quarantined'', Value = 0, Type = ''account'', Status = []\<rparr>,
        \<lparr>Name = ''quarantined'', Value = 5, Type = ''object'', Status = []\<rparr>]
   \<and> (\<exists>ex' out. Collect swift_exporter env_quarantined = Returned (ex', out)
        \<and> set (filter (\<lambda>m. metric_name m = ''swift_quarantined'') out) =
            {Metric ''swift_quarantined'' [(''type'', ''container'')] 2,
             Metric ''swift_quarantined'' [(''type'', ''account'')] 0,
             Metric ''swift_quarantined'' [(''type'', ''object'')] 5}
        \<and> length (filter (\<lambda>m. metric_name m = ''swift_quarantined'') out) = 3)"
proof -
  have req: "request swift_exporter env_quarantined ''quarantined'' = (quarantined_reply, None)"
    by (simp add: request_def swift_exporter_fields env_quarantined_def serve_def)
  have fields: "map_of quarantined_reply ''objects'' = Some (JNumber 5)"
    "map_of quarantined_reply ''accounts'' = Some (JNumber 0)"
    "map_of quarantined_reply ''containers'' = Some (JNumber 2)"
    by (simp_all add: quarantined_reply_def)
  note scenario = quarantined_scenario [OF req fields]
  have "fst (scrape_subs swift_exporter env_quarantined) =
      fst (scrapeQuarantined swift_exporter env_quarantined)"
    by (simp add: scrape_subs_samples scrapeAsync_def scrapeReplication_def scrapeUpdater_def
        scrapeExpirer_def request_def swift_exporter_fields env_quarantined_def serve_def)
  then have "\<forall>s \<in> set (fst (scrape_subs swift_exporter env_quarantined)).
      fits (metrics (initGauges swift_exporter)) s"
    using scenario by (simp add: fits_catalog)
  from setMetrics_fits [OF this, of "namespace swift_exporter"]
  have "\<exists>ex' out. Collect swift_exporter env_quarantined = Returned (ex', out)"
    by (auto simp: Collect_unfold)
  with scenario show ?thesis
    by (auto simp: swift_exporter_fields BuildFQName_def)
qed

end
